theory Spec2Isabelle
  imports Main "HOL-Library.Sublist"
begin

section \<open>The hybrid cache-and-sync engine of services/storage.ts\<close>

text \<open>
  The module keeps every table as a JSON array in the browser's localStorage, tells the
  registered callbacks about each local write, and mirrors the write to a spreadsheet
  endpoint. The embedding below follows the module function by function.

  \<^item> A JavaScript value that is plain data is a \<open>json\<close> tree; an object keeps the
    order of its properties. JSON numbers are restricted to integers.
  \<^item> A string kept in localStorage under a table key is always the output of
    JSON.stringify. It is represented by the document it spells: JSON.stringify is
    injective on plain data and JSON.parse inverts it, so two serialised forms are equal
    exactly when the documents are. The endpoint URL, the one raw string the module
    stores, is the field \<open>api_url\<close>.
  \<^item> A callback is an opaque function reference, compared by identity: a number. Calling
    it is an event of the trace; callbacks do not call back into the engine.
  \<^item> Every effect that leaves the module (a localStorage write, a callback invocation,
    a network request) is appended to \<open>trace\<close>, oldest first.
  \<^item> Date.now() and Math.random().toString(36) are inputs of the functions that read
    them.
  \<^item> A TypeError of the source is the value \<open>Inl TypeError\<close>.
\<close>

subsection \<open>Plain data\<close>

datatype json =
    JNull
  | JBool bool
  | JNum int
  | JStr string
  | JArr "json list"
  | JObj "(string \<times> json) list"

type_synonym obj = "(string \<times> json) list"

type_synonym callback = nat

datatype action = Create | Update | Delete

datatype request =
    POST string action string json
  | GET string string

datatype event =
    SetItem string json
  | Invoke callback json
  | Fetch request

datatype error = TypeError

record state =
  api_url :: "string option"
  localStorage :: "string \<rightharpoonup> json"
  listeners :: "string \<rightharpoonup> callback list"
  trace :: "event list"

text \<open>The truth value JavaScript gives a value in a condition; \<open>None\<close> is undefined.\<close>

fun truthy :: "json option \<Rightarrow> bool" where
  "truthy None = False"
| "truthy (Some JNull) = False"
| "truthy (Some (JBool b)) = b"
| "truthy (Some (JNum n)) = (n \<noteq> 0)"
| "truthy (Some (JStr s)) = (s \<noteq> [])"
| "truthy (Some (JArr xs)) = True"
| "truthy (Some (JObj fs)) = True"

text \<open>
  \<open>a === b\<close> where \<open>a\<close> is read from a freshly parsed list: primitives are compared by
  value, and an array or object of the parsed list is never the same reference as
  another value.
\<close>

fun strict_eq :: "json option \<Rightarrow> json option \<Rightarrow> bool" where
  "strict_eq None None = True"
| "strict_eq (Some JNull) (Some JNull) = True"
| "strict_eq (Some (JBool a)) (Some (JBool b)) = (a = b)"
| "strict_eq (Some (JNum a)) (Some (JNum b)) = (a = b)"
| "strict_eq (Some (JStr a)) (Some (JStr b)) = (a = b)"
| "strict_eq _ _ = False"

text \<open>\<open>i.id\<close> for an element of a parsed list: reading a property of null throws.\<close>

fun get_id :: "json \<Rightarrow> error + json option" where
  "get_id JNull = Inl TypeError"
| "get_id (JObj fs) = Inr (map_of fs ''id'')"
| "get_id _ = Inr None"

text \<open>
  \<open>{...o, k: v}\<close> and \<open>o.k = v\<close>: an existing property keeps its place and takes the
  new value, a new property goes last.
\<close>

fun set_prop :: "obj \<Rightarrow> string \<Rightarrow> json \<Rightarrow> obj" where
  "set_prop [] k v = [(k, v)]"
| "set_prop (p # ps) k v = (if fst p = k then (k, v) # ps else p # set_prop ps k v)"

text \<open>A non-negative integer in a template literal: its decimal digits.\<close>

definition digit_char :: "nat \<Rightarrow> char" where
  "digit_char d = ''0123456789'' ! d"

function show_nat :: "nat \<Rightarrow> string" where
  "show_nat n = (if n < 10 then [digit_char n] else show_nat (n div 10) @ [digit_char (n mod 10)])"
  by pat_completeness auto
termination
  by (relation "measure id") auto

declare show_nat.simps [simp del]

definition substr :: "string \<Rightarrow> nat \<Rightarrow> nat \<Rightarrow> string" where
  "substr s start len = take len (drop start s)"

subsection \<open>Keys and the endpoint\<close>

definition KEYS_USERS :: string where "KEYS_USERS = ''senja_users''"
definition KEYS_STUDENTS :: string where "KEYS_STUDENTS = ''senja_students''"
definition KEYS_MATERIALS :: string where "KEYS_MATERIALS = ''senja_materials''"
definition KEYS_SUBMISSIONS :: string where "KEYS_SUBMISSIONS = ''senja_submissions''"
definition KEYS_SETTINGS :: string where "KEYS_SETTINGS = ''senja_settings''"

definition DEFAULT_API_URL :: string where
  "DEFAULT_API_URL =
     ''https://script.google.com/macros/s/AKfycbzJ2VqHuQvz1XxsmeZTsB-1AFP7qW2k7Fpmlkoah46ObMUP0zHGESTrUYDqMkvwrt3bcA/exec''"

text \<open>\<open>localStorage.getItem(KEYS.API_URL) || DEFAULT_API_URL\<close>\<close>

definition getApiUrl :: "state \<Rightarrow> string" where
  "getApiUrl st =
     (case api_url st of
        None \<Rightarrow> DEFAULT_API_URL
      | Some u \<Rightarrow> if u \<noteq> [] then u else DEFAULT_API_URL)"


subsection \<open>Remote gateway\<close>

text \<open>
  apiRequest: with an empty URL it returns at once; otherwise it issues the POST. A
  failure of fetch is caught and logged, so the caller sees nothing of the outcome.
\<close>

definition apiRequest :: "action \<Rightarrow> string \<Rightarrow> json \<Rightarrow> state \<Rightarrow> state" where
  "apiRequest act table data st =
     (let url = getApiUrl st in
      if url = [] then st
      else st\<lparr>trace := trace st @ [Fetch (POST url act table data)]\<rparr>)"

text \<open>
  apiFetch is asynchronous. \<open>apiFetch_send\<close> is the part that runs when it is called:
  nothing with an empty URL, the GET otherwise. \<open>apiFetch_resolve\<close> is the value its
  promise resolves to, given the answer of the network: \<open>None\<close> for a transport or
  parse failure, which the source turns into null.
\<close>

definition apiFetch_send :: "string \<Rightarrow> state \<Rightarrow> state" where
  "apiFetch_send table st =
     (let url = getApiUrl st in
      if url = [] then st
      else st\<lparr>trace := trace st @ [Fetch (GET url table)]\<rparr>)"

definition apiFetch_resolve :: "json option \<Rightarrow> json" where
  "apiFetch_resolve response = (case response of None \<Rightarrow> JNull | Some data \<Rightarrow> data)"

subsection \<open>Event emitter and local store\<close>

definition notify :: "string \<Rightarrow> json \<Rightarrow> state \<Rightarrow> state" where
  "notify key data st =
     (case listeners st key of
        None \<Rightarrow> st
      | Some cbs \<Rightarrow> st\<lparr>trace := trace st @ map (\<lambda>cb. Invoke cb data) cbs\<rparr>)"

definition getData :: "state \<Rightarrow> string \<Rightarrow> json" where
  "getData st key = (case localStorage st key of None \<Rightarrow> JArr [] | Some doc \<Rightarrow> doc)"

definition setItem :: "string \<Rightarrow> json \<Rightarrow> state \<Rightarrow> state" where
  "setItem key doc st =
     st\<lparr>localStorage := (localStorage st)(key \<mapsto> doc), trace := trace st @ [SetItem key doc]\<rparr>"

definition setData :: "string \<Rightarrow> json list \<Rightarrow> state \<Rightarrow> state" where
  "setData key data st = notify key (JArr data) (setItem key (JArr data) st)"

subsection \<open>Generic CRUD\<close>

text \<open>\<open>list.findIndex(i => i.id === v)\<close>; \<open>None\<close> is the source's -1.\<close>

fun findIndex :: "json list \<Rightarrow> json option \<Rightarrow> error + nat option" where
  "findIndex [] v = Inr None"
| "findIndex (i # rest) v =
     (case get_id i of
        Inl e \<Rightarrow> Inl e
      | Inr w \<Rightarrow>
          if strict_eq w v then Inr (Some 0)
          else (case findIndex rest v of
                  Inl e \<Rightarrow> Inl e
                | Inr None \<Rightarrow> Inr None
                | Inr (Some k) \<Rightarrow> Inr (Some (Suc k))))"

text \<open>The id saveItem synthesises: table prefix, timestamp, random suffix.\<close>

definition generated_id :: "string \<Rightarrow> nat \<Rightarrow> string \<Rightarrow> string" where
  "generated_id table now rnd = take 3 table @ ''_'' @ show_nat now @ ''_'' @ substr rnd 2 5"

definition saveItem :: "nat \<Rightarrow> string \<Rightarrow> string \<Rightarrow> string \<Rightarrow> obj \<Rightarrow> state \<Rightarrow> error + state" where
  "saveItem now rnd key table item st =
     (case getData st key of
        JArr list \<Rightarrow>
          if truthy (map_of item ''id'') then
            (case findIndex list (map_of item ''id'') of
               Inl e \<Rightarrow> Inl e
             | Inr (Some index) \<Rightarrow>
                 Inr (apiRequest Update table (JObj item)
                        (setData key (list[index := JObj item]) st))
             | Inr None \<Rightarrow>
                 Inr (apiRequest Create table (JObj item)
                        (setData key (list @ [JObj item]) st)))
          else
            (let item' = set_prop item ''id'' (JStr (generated_id table now rnd)) in
             Inr (apiRequest Create table (JObj item')
                    (setData key (list @ [JObj item']) st)))
      | _ \<Rightarrow> Inl TypeError)"

text \<open>\<open>list.filter(i => i.id !== id)\<close>\<close>

fun filter_other_ids :: "json list \<Rightarrow> string \<Rightarrow> error + json list" where
  "filter_other_ids [] ident = Inr []"
| "filter_other_ids (i # rest) ident =
     (case get_id i of
        Inl e \<Rightarrow> Inl e
      | Inr w \<Rightarrow>
          (case filter_other_ids rest ident of
             Inl e \<Rightarrow> Inl e
           | Inr kept \<Rightarrow> Inr (if strict_eq w (Some (JStr ident)) then kept else i # kept)))"

definition deleteItem :: "string \<Rightarrow> string \<Rightarrow> string \<Rightarrow> state \<Rightarrow> error + state" where
  "deleteItem key table ident st =
     (case getData st key of
        JArr list \<Rightarrow>
          (case filter_other_ids list ident of
             Inl e \<Rightarrow> Inl e
           | Inr newList \<Rightarrow>
               Inr (apiRequest Delete table (JObj [(''id'', JStr ident)])
                      (setData key newList st)))
      | _ \<Rightarrow> Inl TypeError)"

subsection \<open>Subscriptions\<close>

text \<open>
  createSubscriber(key, tableName)(callback), the part that runs before it returns:
  register the callback, replay the local snapshot, and start the remote fetch when
  there is a URL. A key the registry does not have makes \<open>listeners[key].push\<close> throw.
\<close>

definition createSubscriber :: "string \<Rightarrow> string \<Rightarrow> callback \<Rightarrow> state \<Rightarrow> error + state" where
  "createSubscriber key tableName callback st =
     (case listeners st key of
        None \<Rightarrow> Inl TypeError
      | Some cbs \<Rightarrow>
          (let st1 = st\<lparr>listeners := (listeners st)(key \<mapsto> cbs @ [callback])\<rparr>;
               st2 = st1\<lparr>trace := trace st1 @ [Invoke callback (getData st1 key)]\<rparr>
           in Inr (if getApiUrl st2 \<noteq> [] then apiFetch_send tableName st2 else st2)))"

text \<open>
  The function given to \<open>then\<close>: it runs when the fetch has resolved to \<open>cloudData\<close>, on
  the state the engine is in at that moment.
\<close>

definition createSubscriber_then :: "string \<Rightarrow> callback \<Rightarrow> json \<Rightarrow> state \<Rightarrow> state" where
  "createSubscriber_then key callback cloudData st =
     (case cloudData of
        JArr rows \<Rightarrow>
          if rows \<noteq> [] then
            (let currentLocal = localStorage st key; newCloud = cloudData in
             if currentLocal \<noteq> Some newCloud then
               (let st1 = setItem key newCloud st
                in st1\<lparr>trace := trace st1 @ [Invoke callback cloudData]\<rparr>)
             else st)
          else st
      | _ \<Rightarrow> st)"

text \<open>
  The function createSubscriber returns, and the one subscribeSettings returns for
  \<open>KEYS_SETTINGS\<close>: \<open>listeners[key] = listeners[key].filter(cb => cb !== callback)\<close>.
\<close>

definition unsubscribe :: "string \<Rightarrow> callback \<Rightarrow> state \<Rightarrow> error + state" where
  "unsubscribe key callback st =
     (case listeners st key of
        None \<Rightarrow> Inl TypeError
      | Some cbs \<Rightarrow>
          Inr (st\<lparr>listeners := (listeners st)(key \<mapsto> filter (\<lambda>cb. cb \<noteq> callback) cbs)\<rparr>))"

subsection \<open>Students\<close>

definition saveStudent :: "nat \<Rightarrow> string \<Rightarrow> obj \<Rightarrow> state \<Rightarrow> error + state" where
  "saveStudent now rnd student st = saveItem now rnd KEYS_STUDENTS ''students'' student st"

definition deleteStudent :: "string \<Rightarrow> state \<Rightarrow> error + state" where
  "deleteStudent ident st = deleteItem KEYS_STUDENTS ''students'' ident st"

definition bulk_id :: "nat \<Rightarrow> nat \<Rightarrow> string \<Rightarrow> string" where
  "bulk_id now i rnd = ''std_'' @ show_nat now @ ''_'' @ show_nat i @ ''_'' @ substr rnd 2 4"

text \<open>
  \<open>newStudents.map((s, i) => ({...s, id: ...}))\<close>, from index \<open>i\<close> on; \<open>now j\<close> and
  \<open>rnd j\<close> are what Date.now() and Math.random().toString(36) give for element \<open>j\<close>.
\<close>

fun prepare :: "(nat \<Rightarrow> nat) \<Rightarrow> (nat \<Rightarrow> string) \<Rightarrow> nat \<Rightarrow> obj list \<Rightarrow> obj list" where
  "prepare now rnd i [] = []"
| "prepare now rnd i (s # rest) =
     set_prop s ''id'' (JStr (bulk_id (now i) i (rnd i))) # prepare now rnd (Suc i) rest"

text \<open>\<open>[...list]\<close>: an array gives its elements, a string its characters, nothing else is iterable.\<close>

fun spread :: "json \<Rightarrow> error + json list" where
  "spread (JArr xs) = Inr xs"
| "spread (JStr s) = Inr (map (\<lambda>c. JStr [c]) s)"
| "spread _ = Inl TypeError"

text \<open>
  bulkImportStudents is asynchronous: its loop awaits every apiRequest.
  \<open>bulkImportStudents_loop\<close> is one turn of
  \<open>for (const s of prepared) { await apiRequest('create', 'students', s) }\<close> on the records
  still to send. It runs when the function reaches the loop, and again each time the
  awaited request has settled (apiRequest catches a failed fetch), on the state the
  engine is in at that moment: it issues the request for the next record and suspends,
  and with no record left the function returns.
\<close>

fun bulkImportStudents_loop :: "obj list \<Rightarrow> state \<Rightarrow> state \<times> obj list" where
  "bulkImportStudents_loop [] st = (st, [])"
| "bulkImportStudents_loop (s # rest) st = (apiRequest Create ''students'' (JObj s) st, rest)"

text \<open>
  bulkImportStudents up to its first await: the state it leaves, and the records the
  suspended loop has still to send.
\<close>

definition bulkImportStudents ::
  "(nat \<Rightarrow> nat) \<Rightarrow> (nat \<Rightarrow> string) \<Rightarrow> obj list \<Rightarrow> state \<Rightarrow> error + state \<times> obj list" where
  "bulkImportStudents now rnd newStudents st =
     (let list = getData st KEYS_STUDENTS;
          prepared = prepare now rnd 0 newStudents
      in case spread list of
           Inl e \<Rightarrow> Inl e
         | Inr xs \<Rightarrow>
             Inr (bulkImportStudents_loop prepared
                    (setData KEYS_STUDENTS (xs @ map JObj prepared) st)))"

subsection \<open>Settings\<close>

definition saveSettings :: "obj \<Rightarrow> state \<Rightarrow> state" where
  "saveSettings settings st =
     (let payload = set_prop settings ''id'' (JStr ''global_settings'') in
      apiRequest Update ''settings'' (JObj payload)
        (notify KEYS_SETTINGS (JObj payload) (setItem KEYS_SETTINGS (JObj payload) st)))"

text \<open>\<open>data.find(x => x.id === 'global_settings')\<close>; \<open>None\<close> is undefined.\<close>

fun find_global :: "json list \<Rightarrow> error + json option" where
  "find_global [] = Inr None"
| "find_global (x # rest) =
     (case get_id x of
        Inl e \<Rightarrow> Inl e
      | Inr w \<Rightarrow> if strict_eq w (Some (JStr ''global_settings'')) then Inr (Some x)
                else find_global rest)"

text \<open>
  subscribeSettings(cb), the part that runs before it returns. The constant
  DEFAULT_CERT_BG of the module constants is the parameter \<open>default_cert_bg\<close>.
\<close>

definition subscribeSettings :: "json \<Rightarrow> callback \<Rightarrow> state \<Rightarrow> error + state" where
  "subscribeSettings default_cert_bg cb st =
     (case listeners st KEYS_SETTINGS of
        None \<Rightarrow> Inl TypeError
      | Some cbs \<Rightarrow>
          (let st1 = st\<lparr>listeners := (listeners st)(KEYS_SETTINGS \<mapsto> cbs @ [cb])\<rparr>;
               parsed = (case localStorage st1 KEYS_SETTINGS of
                           None \<Rightarrow> JObj [(''certBackground'', default_cert_bg)]
                         | Some saved \<Rightarrow> saved);
               st2 = st1\<lparr>trace := trace st1 @ [Invoke cb parsed]\<rparr>
           in Inr (if getApiUrl st2 \<noteq> [] then apiFetch_send ''settings'' st2 else st2)))"

text \<open>
  The function subscribeSettings gives to \<open>then\<close>, run when the fetch has resolved to
  \<open>data\<close>. \<open>data && data.length > 0\<close> holds for a non-empty array and for a non-empty
  string, not for null, a boolean, a number or an empty array; for an object it is the
  comparison of its \<open>length\<close> property with 0, which converts the property to a
  floating-point number and is the parameter \<open>gt_zero\<close>. Where the test holds and \<open>data\<close>
  is no array, \<open>data.find\<close> is no function and the call throws.
\<close>

definition subscribeSettings_then ::
  "(json option \<Rightarrow> bool) \<Rightarrow> callback \<Rightarrow> json \<Rightarrow> state \<Rightarrow> error + state" where
  "subscribeSettings_then gt_zero cb data st =
     (case data of
        JArr rows \<Rightarrow>
          (case rows of
             [] \<Rightarrow> Inr st
           | first # _ \<Rightarrow>
               (case find_global rows of
                  Inl e \<Rightarrow> Inl e
                | Inr found \<Rightarrow>
                    (let serverSettings = (if truthy found then found else Some first) in
                     if truthy serverSettings then
                       (case serverSettings of
                          None \<Rightarrow> Inr st
                        | Some doc \<Rightarrow>
                            (let st1 = setItem KEYS_SETTINGS doc st
                             in Inr (st1\<lparr>trace := trace st1 @ [Invoke cb doc]\<rparr>)))
                     else Inr st)))
      | JStr s \<Rightarrow> if s \<noteq> [] then Inl TypeError else Inr st
      | JObj fs \<Rightarrow> if gt_zero (map_of fs ''length'') then Inl TypeError else Inr st
      | _ \<Rightarrow> Inr st)"

subsection \<open>The module as loaded, and what the properties speak about\<close>

text \<open>The state when the module has just been loaded in a browser that stored nothing.\<close>

definition initial_state :: state where
  "initial_state =
     \<lparr>api_url = None,
      localStorage = Map.empty,
      listeners = [KEYS_USERS \<mapsto> [], KEYS_STUDENTS \<mapsto> [], KEYS_MATERIALS \<mapsto> [],
                   KEYS_SUBMISSIONS \<mapsto> [], KEYS_SETTINGS \<mapsto> []],
      trace = []\<rparr>"

text \<open>The callbacks a notification for \<open>key\<close> reaches, in registration order.\<close>

definition subscribers :: "state \<Rightarrow> string \<Rightarrow> callback list" where
  "subscribers st key = (case listeners st key of None \<Rightarrow> [] | Some cbs \<Rightarrow> cbs)"

text \<open>The element \<open>r\<close> of a table carries the id \<open>v\<close>, as the source compares ids.\<close>

definition has_id :: "json \<Rightarrow> json option \<Rightarrow> bool" where
  "has_id r v = (case get_id r of Inl e \<Rightarrow> False | Inr w \<Rightarrow> strict_eq w v)"

text \<open>One call after another; the first TypeError ends the run.\<close>

definition and_then :: "error + state \<Rightarrow> (state \<Rightarrow> error + state) \<Rightarrow> error + state" where
  "and_then r f = (case r of Inl e \<Rightarrow> Inl e | Inr st \<Rightarrow> f st)"

text \<open>What a call leaves under a table key, and in the registry for it.\<close>

definition stored_after :: "string \<Rightarrow> error + state \<Rightarrow> error + json" where
  "stored_after key r = (case r of Inl e \<Rightarrow> Inl e | Inr st \<Rightarrow> Inr (getData st key))"

definition registered_after :: "string \<Rightarrow> error + state \<Rightarrow> error + callback list option" where
  "registered_after key r = (case r of Inl e \<Rightarrow> Inl e | Inr st \<Rightarrow> Inr (listeners st key))"

text \<open>The effects a call has appended to the trace, when it raised no error.\<close>

definition trace_after :: "error + state \<Rightarrow> error + event list" where
  "trace_after r = (case r of Inl e \<Rightarrow> Inl e | Inr st \<Rightarrow> Inr (trace st))"

text \<open>
  The rest of an import when every awaited request settles and nothing else runs in
  between: the loop takes its turns one after the other.
\<close>

fun bulkImportStudents_settled :: "obj list \<Rightarrow> state \<Rightarrow> state" where
  "bulkImportStudents_settled [] st = st"
| "bulkImportStudents_settled (s # rest) st =
     bulkImportStudents_settled rest (fst (bulkImportStudents_loop (s # rest) st))"

text \<open>A sequence of saveItem calls on one table, each with the clock and random value it reads.\<close>

fun saveItems :: "string \<Rightarrow> string \<Rightarrow> (nat \<times> string \<times> obj) list \<Rightarrow> state \<Rightarrow> error + state" where
  "saveItems key table [] st = Inr st"
| "saveItems key table ((now, rnd, item) # rest) st =
     and_then (saveItem now rnd key table item st) (saveItems key table rest)"

subsection \<open>Inputs the properties are tried on\<close>

definition ana :: obj where
  "ana = [(''name'', JStr ''Ana''), (''grade'', JStr ''3'')]"

definition row_s1 :: obj where
  "row_s1 = [(''id'', JStr ''s1''), (''name'', JStr ''Ana'')]"

definition row_s2 :: obj where
  "row_s2 = [(''id'', JStr ''s2''), (''name'', JStr ''Budi'')]"

definition row_s2_renamed :: obj where
  "row_s2_renamed = [(''id'', JStr ''s2''), (''name'', JStr ''Bayu'')]"

text \<open>A browser that stored two students, and two subscribers of the students table.\<close>

definition two_students :: state where
  "two_students =
     initial_state\<lparr>localStorage := [KEYS_STUDENTS \<mapsto> JArr [JObj row_s1, JObj row_s2]],
                    listeners := (listeners initial_state)(KEYS_STUDENTS \<mapsto> [1, 2])\<rparr>"

definition settings_a :: obj where
  "settings_a = [(''certBackground'', JStr ''a.png'')]"

definition settings_b :: obj where
  "settings_b = [(''id'', JStr ''mine''), (''certBackground'', JStr ''b.png'')]"

definition settings_row :: obj where
  "settings_row = [(''id'', JStr ''global_settings''), (''certBackground'', JStr ''a.png'')]"

text \<open>
  A browser in which syncAllFromCloud has stored the remote settings table, an array of
  one record, under the settings key.
\<close>

definition synced_settings :: state where
  "synced_settings = initial_state\<lparr>localStorage := [KEYS_SETTINGS \<mapsto> JArr [JObj settings_row]]\<rparr>"

text \<open>A reading of \<open>length > 0\<close> for objects that holds for none.\<close>

definition no_length :: "json option \<Rightarrow> bool" where
  "no_length v = False"

text \<open>
  An effect of saveSettings: a write of the settings key, a notification or an update of
  the remote settings table, each carrying a record whose id is the fixed constant.
\<close>

definition settings_event :: "event \<Rightarrow> bool" where
  "settings_event e =
     (case e of
        SetItem key doc \<Rightarrow> key = KEYS_SETTINGS \<and> get_id doc = Inr (Some (JStr ''global_settings''))
      | Invoke cb doc \<Rightarrow> get_id doc = Inr (Some (JStr ''global_settings''))
      | Fetch (POST url act table doc) \<Rightarrow>
          act = Update \<and> table = ''settings'' \<and> get_id doc = Inr (Some (JStr ''global_settings''))
      | Fetch (GET url table) \<Rightarrow> False)"

section \<open>Properties\<close>

subsection \<open>The endpoint is never empty\<close>

lemma DEFAULT_API_URL_nonempty: "DEFAULT_API_URL \<noteq> []"
  by (simp add: DEFAULT_API_URL_def)

lemma getApiUrl_nonempty: "getApiUrl st \<noteq> []"
  by (simp add: getApiUrl_def DEFAULT_API_URL_nonempty split: option.split)

subsection \<open>What each operation does to the state\<close>

lemma apiRequest_eq:
  "apiRequest act table data st =
     st\<lparr>trace := trace st @ [Fetch (POST (getApiUrl st) act table data)]\<rparr>"
  by (simp add: apiRequest_def Let_def getApiUrl_nonempty)

lemma apiFetch_send_eq:
  "apiFetch_send table st = st\<lparr>trace := trace st @ [Fetch (GET (getApiUrl st) table)]\<rparr>"
  by (simp add: apiFetch_send_def Let_def getApiUrl_nonempty)

lemma getApiUrl_trace [simp]: "getApiUrl (st\<lparr>trace := t\<rparr>) = getApiUrl st"
  by (simp add: getApiUrl_def)

lemma getApiUrl_localStorage [simp]: "getApiUrl (st\<lparr>localStorage := m\<rparr>) = getApiUrl st"
  by (simp add: getApiUrl_def)

lemma getApiUrl_listeners [simp]: "getApiUrl (st\<lparr>listeners := m\<rparr>) = getApiUrl st"
  by (simp add: getApiUrl_def)

lemma notify_eq:
  "notify key data st =
     st\<lparr>trace := trace st @ map (\<lambda>cb. Invoke cb data) (subscribers st key)\<rparr>"
  by (simp add: notify_def subscribers_def split: option.split)

lemma setData_eq:
  "setData key data st =
     st\<lparr>localStorage := (localStorage st)(key \<mapsto> JArr data),
        trace := trace st @ [SetItem key (JArr data)] @
                 map (\<lambda>cb. Invoke cb (JArr data)) (subscribers st key)\<rparr>"
  by (simp add: setData_def notify_eq setItem_def subscribers_def)

lemma getData_after_write [simp]:
  "getData (apiRequest act table d (setData key data st)) key = JArr data"
  by (simp add: apiRequest_eq setData_eq getData_def)

subsection \<open>Remote gateway without a stored URL\<close>



subsection \<open>Looking an id up in a table\<close>

lemma get_id_nonnull: "r \<noteq> JNull \<Longrightarrow> \<exists>w. get_id r = Inr w"
  by (cases r) simp_all

lemma findIndex_total:
  "JNull \<notin> set list \<Longrightarrow> \<exists>r. findIndex list v = Inr r"
proof (induction list)
  case Nil
  then show ?case by simp
next
  case (Cons i rest)
  then obtain w where w: "get_id i = Inr w"
    using get_id_nonnull [of i] by auto
  from Cons obtain r where r: "findIndex rest v = Inr r" by auto
  show ?case using w r by (cases r) (simp_all)
qed

lemma findIndex_Some:
  "findIndex list v = Inr (Some k) \<Longrightarrow>
     k < length list \<and> has_id (list ! k) v \<and> (\<forall>i<k. \<not> has_id (list ! i) v)"
proof (induction list arbitrary: k)
  case Nil
  then show ?case by simp
next
  case (Cons x rest)
  then obtain w where w: "get_id x = Inr w"
    by (cases "get_id x") auto
  show ?case
  proof (cases "strict_eq w v")
    case True
    with Cons.prems w have "k = 0" by simp
    with True w show ?thesis by (simp add: has_id_def)
  next
    case False
    with Cons.prems w obtain k' where k': "findIndex rest v = Inr (Some k')" "k = Suc k'"
      by (auto split: sum.splits option.splits)
    from Cons.IH [OF k'(1)] have ih: "k' < length rest" "has_id (rest ! k') v"
      "\<forall>i<k'. \<not> has_id (rest ! i) v" by auto
    have "\<not> has_id x v" using False w by (simp add: has_id_def)
    with ih k'(2) show ?thesis
      by (auto simp: less_Suc_eq_0_disj)
  qed
qed

lemma findIndex_None:
  "findIndex list v = Inr None \<Longrightarrow> \<forall>r\<in>set list. \<not> has_id r v"
proof (induction list)
  case Nil
  then show ?case by simp
next
  case (Cons x rest)
  then obtain w where w: "get_id x = Inr w"
    by (cases "get_id x") auto
  from Cons.prems w have ne: "\<not> strict_eq w v" and r: "findIndex rest v = Inr None"
    by (auto split: if_splits sum.splits option.splits)
  from Cons.IH [OF r] ne w show ?case by (simp add: has_id_def)
qed

lemma findIndex_found:
  assumes "JNull \<notin> set list" and "j < length list" and "has_id (list ! j) v"
  shows "\<exists>k\<le>j. findIndex list v = Inr (Some k)"
proof -
  from findIndex_total [OF assms(1)] obtain r where r: "findIndex list v = Inr r" by blast
  show ?thesis
  proof (cases r)
    case None
    with r findIndex_None [of list v] have "\<not> has_id (list ! j) v"
      using assms(2) nth_mem by blast
    with assms(3) show ?thesis by simp
  next
    case (Some k)
    with r findIndex_Some [of list v k] have "\<forall>i<k. \<not> has_id (list ! i) v" by simp
    with assms(3) have "k \<le> j" by (meson not_le)
    with r Some show ?thesis by simp
  qed
qed

subsection \<open>Saving a record whose id is in the table\<close>

text \<open>
  C1, as the spec states it: a record whose id is present and equal to the id of a stored
  record replaces that entry, and the length does not change. The code does otherwise
  for an id that is present but falsy. The table holds one student whose id is the empty
  string; saving a record with the same id does not replace it: the record gets a
  generated id and is appended, so the table has two entries and the first is untouched.
\<close>

theorem saveItem_empty_id_counterexample:
  "getData (initial_state\<lparr>localStorage :=
              [KEYS_STUDENTS \<mapsto> JArr [JObj [(''id'', JStr []), (''name'', JStr ''Ana'')]]]\<rparr>)
       KEYS_STUDENTS
     = JArr [JObj [(''id'', JStr []), (''name'', JStr ''Ana'')]]
   \<and> has_id (JObj [(''id'', JStr []), (''name'', JStr ''Ana'')])
       (map_of [(''id'', JStr []), (''name'', JStr ''Ani'')] ''id'')
   \<and> stored_after KEYS_STUDENTS
       (saveItem 5 ''0.k3j5x9'' KEYS_STUDENTS ''students'' [(''id'', JStr []), (''name'', JStr ''Ani'')]
          (initial_state\<lparr>localStorage :=
              [KEYS_STUDENTS \<mapsto> JArr [JObj [(''id'', JStr []), (''name'', JStr ''Ana'')]]]\<rparr>))
     = Inr (JArr [JObj [(''id'', JStr []), (''name'', JStr ''Ana'')],
                  JObj [(''id'', JStr ''stu_5_k3j5x''), (''name'', JStr ''Ani'')]])"
  by (simp add: stored_after_def saveItem_def getData_def generated_id_def substr_def show_nat.simps digit_char_def
      apiRequest_eq setData_eq Let_def has_id_def)

text \<open>
  C1, amended: let the stored table be an array without null elements, and let the
  record's id be truthy (present and not the empty string, 0, false or null) and
  strictly equal to the id of the entry at position \<open>j\<close>. Then saveItem succeeds, the
  stored array keeps its length, the record stands at the first position \<open>k\<close> whose id
  matches (\<open>k \<le> j\<close>, and \<open>k = j\<close> when no other entry carries the id), and every other
  position holds what it held.
\<close>

theorem saveItem_replaces_in_place:
  assumes "getData st key = JArr list" and "JNull \<notin> set list"
    and "truthy (map_of item ''id'')"
    and "j < length list" and "has_id (list ! j) (map_of item ''id'')"
  shows "\<exists>st' list' k.
           saveItem now rnd key table item st = Inr st'
         \<and> getData st' key = JArr list'
         \<and> length list' = length list
         \<and> k \<le> j \<and> has_id (list ! k) (map_of item ''id'')
         \<and> ((\<forall>i<length list. i \<noteq> j \<longrightarrow> \<not> has_id (list ! i) (map_of item ''id'')) \<longrightarrow> k = j)
         \<and> list' ! k = JObj item
         \<and> (\<forall>i<length list. i \<noteq> k \<longrightarrow> list' ! i = list ! i)"
proof -
  from findIndex_found [OF assms(2,4,5)] obtain k where
    k: "k \<le> j" "findIndex list (map_of item ''id'') = Inr (Some k)" by blast
  from findIndex_Some [OF k(2)] have kp: "k < length list" "has_id (list ! k) (map_of item ''id'')"
    by auto
  let ?st' = "apiRequest Update table (JObj item) (setData key (list[k := JObj item]) st)"
  have s: "saveItem now rnd key table item st = Inr ?st'"
    using assms(1,3) k(2) by (simp add: saveItem_def)
  have g: "getData ?st' key = JArr (list[k := JObj item])" by simp
  have u: "(\<forall>i<length list. i \<noteq> j \<longrightarrow> \<not> has_id (list ! i) (map_of item ''id'')) \<longrightarrow> k = j"
    using kp by auto
  show ?thesis
    using s g k(1) kp u
    by (intro exI [of _ ?st'] exI [of _ "list[k := JObj item]"] exI [of _ k]) simp
qed

theorem saveItem_replaces_in_place_witness:
  "getData two_students KEYS_STUDENTS = JArr [JObj row_s1, JObj row_s2]
   \<and> JNull \<notin> set [JObj row_s1, JObj row_s2]
   \<and> truthy (map_of row_s2_renamed ''id'')
   \<and> (1::nat) < length [JObj row_s1, JObj row_s2]
   \<and> has_id ([JObj row_s1, JObj row_s2] ! 1) (map_of row_s2_renamed ''id'')
   \<and> (\<exists>st'. saveItem 5 ''0.k3j5x9'' KEYS_STUDENTS ''students'' row_s2_renamed two_students = Inr st'
           \<and> getData st' KEYS_STUDENTS = JArr [JObj row_s1, JObj row_s2_renamed])"
proof -
  let ?list = "[JObj row_s1, JObj row_s2]"
  have h1: "getData two_students KEYS_STUDENTS = JArr ?list"
    by (simp add: two_students_def getData_def)
  have h2: "JNull \<notin> set ?list" by simp
  have h3: "truthy (map_of row_s2_renamed ''id'')" by (simp add: row_s2_renamed_def)
  have h4: "(1::nat) < length ?list" by simp
  have h5: "has_id (?list ! 1) (map_of row_s2_renamed ''id'')"
    by (simp add: has_id_def row_s2_def row_s2_renamed_def)
  have n0: "\<not> has_id (JObj row_s1) (map_of row_s2_renamed ''id'')"
    by (simp add: has_id_def row_s1_def row_s2_renamed_def)
  from saveItem_replaces_in_place [where now = 5 and rnd = "''0.k3j5x9''" and table = "''students''",
      OF h1 h2 h3 h4 h5]
  obtain st' list' k where r:
    "saveItem 5 ''0.k3j5x9'' KEYS_STUDENTS ''students'' row_s2_renamed two_students = Inr st'"
    "getData st' KEYS_STUDENTS = JArr list'" "length list' = length ?list"
    "k \<le> 1" "has_id (?list ! k) (map_of row_s2_renamed ''id'')"
    "list' ! k = JObj row_s2_renamed"
    "\<forall>i<length ?list. i \<noteq> k \<longrightarrow> list' ! i = ?list ! i"
    by blast
  have k1: "k = 1"
  proof (rule ccontr)
    assume "k \<noteq> 1"
    with r(4) have "k = 0" by simp
    with r(5) n0 show False by simp
  qed
  from r(7) k1 have "list' ! 0 = JObj row_s1" by simp
  moreover from r(6) k1 have "list' ! 1 = JObj row_s2_renamed" by simp
  moreover from r(3) have "length list' = 2" by simp
  ultimately have "list' = [JObj row_s1, JObj row_s2_renamed]"
    by (auto simp: list_eq_iff_nth_eq less_Suc_eq numeral_2_eq_2)
  with r(1,2) h1 h2 h3 h4 h5 show ?thesis by blast
qed

subsection \<open>Filtering a table by id\<close>

lemma filter_other_ids_eq:
  "JNull \<notin> set list \<Longrightarrow>
     filter_other_ids list ident = Inr (filter (\<lambda>r. \<not> has_id r (Some (JStr ident))) list)"
proof (induction list)
  case Nil
  then show ?case by simp
next
  case (Cons i rest)
  then obtain w where w: "get_id i = Inr w"
    using get_id_nonnull [of i] by auto
  with Cons show ?case by (simp add: has_id_def)
qed

lemma filter_unique:
  assumes "P r" and "\<forall>x\<in>set (xs @ ys). \<not> P x"
  shows "filter (\<lambda>x. \<not> P x) (xs @ r # ys) = xs @ ys"
  using assms by (simp add: filter_id_conv)

subsection \<open>Deleting by id\<close>

text \<open>
  C3: let the stored table be an array without null elements. deleteItem raises no
  error and stores the table without the records that carry the id, the others in
  their order. When no record carries the id the stored table is the same; when exactly
  one does (ids are unique) exactly that one is gone; and a second delete of the same
  id raises no error and stores the same table again.
\<close>

theorem deleteItem_removes_id:
  assumes "getData st key = JArr list" and "JNull \<notin> set list"
  shows "\<exists>st' list'.
           deleteItem key table ident st = Inr st'
         \<and> getData st' key = JArr list'
         \<and> list' = filter (\<lambda>r. \<not> has_id r (Some (JStr ident))) list
         \<and> ((\<forall>r\<in>set list. \<not> has_id r (Some (JStr ident))) \<longrightarrow> list' = list)
         \<and> (\<forall>xs r ys. list = xs @ r # ys \<and> has_id r (Some (JStr ident))
                \<and> (\<forall>x\<in>set (xs @ ys). \<not> has_id x (Some (JStr ident)))
              \<longrightarrow> list' = xs @ ys)
         \<and> (\<exists>st''. deleteItem key table ident st' = Inr st'' \<and> getData st'' key = JArr list')"
proof -
  let ?P = "\<lambda>r. has_id r (Some (JStr ident))"
  let ?list' = "filter (\<lambda>r. \<not> ?P r) list"
  let ?req = "JObj [(''id'', JStr ident)]"
  let ?st' = "apiRequest Delete table ?req (setData key ?list' st)"
  let ?st'' = "apiRequest Delete table ?req (setData key ?list' ?st')"
  have d1: "deleteItem key table ident st = Inr ?st'"
    using assms by (simp add: deleteItem_def filter_other_ids_eq)
  have g1: "getData ?st' key = JArr ?list'" by simp
  have nn: "JNull \<notin> set ?list'" using assms(2) by simp
  have again: "filter (\<lambda>r. \<not> ?P r) ?list' = ?list'" by simp
  have d2: "deleteItem key table ident ?st' = Inr ?st''"
    using g1 nn again by (simp add: deleteItem_def filter_other_ids_eq)
  have g2: "getData ?st'' key = JArr ?list'" by simp
  have absent: "(\<forall>r\<in>set list. \<not> ?P r) \<longrightarrow> ?list' = list"
    by (simp add: filter_id_conv)
  have one: "\<forall>xs r ys. list = xs @ r # ys \<and> ?P r \<and> (\<forall>x\<in>set (xs @ ys). \<not> ?P x)
              \<longrightarrow> ?list' = xs @ ys"
    using filter_unique [of ?P] by blast
  show ?thesis
    using d1 g1 absent one d2 g2 by blast
qed

theorem deleteItem_removes_id_witness:
  "getData two_students KEYS_STUDENTS = JArr [JObj row_s1, JObj row_s2]
   \<and> JNull \<notin> set [JObj row_s1, JObj row_s2]
   \<and> has_id (JObj row_s1) (Some (JStr ''s1''))
   \<and> \<not> has_id (JObj row_s2) (Some (JStr ''s1''))
   \<and> (\<exists>st'. deleteItem KEYS_STUDENTS ''students'' ''s1'' two_students = Inr st'
         \<and> getData st' KEYS_STUDENTS = JArr [JObj row_s2]
         \<and> (\<exists>st''. deleteItem KEYS_STUDENTS ''students'' ''s1'' st' = Inr st''
               \<and> getData st'' KEYS_STUDENTS = JArr [JObj row_s2]))"
proof -
  let ?list = "[JObj row_s1, JObj row_s2]"
  have h1: "getData two_students KEYS_STUDENTS = JArr ?list"
    by (simp add: two_students_def getData_def)
  have h2: "JNull \<notin> set ?list" by simp
  have p1: "has_id (JObj row_s1) (Some (JStr ''s1''))"
    by (simp add: has_id_def row_s1_def)
  have p2: "\<forall>x\<in>set ([] @ [JObj row_s2]). \<not> has_id x (Some (JStr ''s1''))"
    by (simp add: has_id_def row_s2_def)
  from deleteItem_removes_id [where table = "''students''" and ident = "''s1''", OF h1 h2]
  obtain st' list' where r:
    "deleteItem KEYS_STUDENTS ''students'' ''s1'' two_students = Inr st'"
    "getData st' KEYS_STUDENTS = JArr list'"
    "\<forall>xs r ys. ?list = xs @ r # ys \<and> has_id r (Some (JStr ''s1''))
        \<and> (\<forall>x\<in>set (xs @ ys). \<not> has_id x (Some (JStr ''s1''))) \<longrightarrow> list' = xs @ ys"
    "\<exists>st''. deleteItem KEYS_STUDENTS ''students'' ''s1'' st' = Inr st''
        \<and> getData st'' KEYS_STUDENTS = JArr list'"
    by blast
  have "?list = [] @ JObj row_s1 # [JObj row_s2]" by simp
  with r(3) p1 p2 have "list' = [] @ [JObj row_s2]" by blast
  then have "list' = [JObj row_s2]" by simp
  moreover have p3: "\<not> has_id (JObj row_s2) (Some (JStr ''s1''))"
    by (simp add: has_id_def row_s2_def)
  ultimately show ?thesis using r(1,2,4) h1 h2 p1 by blast
qed

subsection \<open>Settings\<close>

lemma map_of_set_prop_same [simp]: "map_of (set_prop ps k v) k = Some v"
  by (induction ps) auto

lemma map_of_set_prop_other [simp]: "k' \<noteq> k \<Longrightarrow> map_of (set_prop ps k v) k' = map_of ps k'"
  by (induction ps) auto

lemma saveSettings_eq:
  "saveSettings settings st =
     st\<lparr>localStorage := (localStorage st)(KEYS_SETTINGS \<mapsto>
            JObj (set_prop settings ''id'' (JStr ''global_settings''))),
        trace := trace st @
          [SetItem KEYS_SETTINGS (JObj (set_prop settings ''id'' (JStr ''global_settings'')))] @
          map (\<lambda>cb. Invoke cb (JObj (set_prop settings ''id'' (JStr ''global_settings''))))
            (subscribers st KEYS_SETTINGS) @
          [Fetch (POST (getApiUrl st) Update ''settings''
             (JObj (set_prop settings ''id'' (JStr ''global_settings''))))]\<rparr>"
  by (simp add: saveSettings_def Let_def apiRequest_eq notify_eq setItem_def subscribers_def)

lemma saveSettings_getApiUrl: "getApiUrl (saveSettings p s) = getApiUrl s"
  by (simp add: saveSettings_eq)

lemma saveSettings_trace:
  "trace (saveSettings p s) =
     trace s @
       ([SetItem KEYS_SETTINGS (JObj (set_prop p ''id'' (JStr ''global_settings'')))] @
        map (\<lambda>cb. Invoke cb (JObj (set_prop p ''id'' (JStr ''global_settings''))))
          (subscribers s KEYS_SETTINGS) @
        [Fetch (POST (getApiUrl s) Update ''settings''
           (JObj (set_prop p ''id'' (JStr ''global_settings''))))])"
  by (simp add: saveSettings_eq)

lemma saveSettings_store:
  "localStorage (saveSettings p s) KEYS_SETTINGS =
     Some (JObj (set_prop p ''id'' (JStr ''global_settings'')))"
  by (simp add: saveSettings_eq)

lemma saveSettings_run:
  "getApiUrl (foldl (\<lambda>s p. saveSettings p s) st payloads) = getApiUrl st
   \<and> (\<exists>evs. trace (foldl (\<lambda>s p. saveSettings p s) st payloads) = trace st @ evs
          \<and> (\<forall>e\<in>set evs. settings_event e))"
proof (induction payloads rule: rev_induct)
  case Nil
  then show ?case by simp
next
  case (snoc p ps)
  let ?s = "foldl (\<lambda>s p. saveSettings p s) st ps"
  from snoc obtain evs where evs: "trace ?s = trace st @ evs" "\<forall>e\<in>set evs. settings_event e"
    by blast
  from snoc have u0: "getApiUrl ?s = getApiUrl st" by blast
  have f: "foldl (\<lambda>s p. saveSettings p s) st (ps @ [p]) = saveSettings p ?s"
    by (simp only: foldl_append foldl_Cons foldl_Nil)
  have u: "getApiUrl (saveSettings p ?s) = getApiUrl st"
    using u0 by (simp only: saveSettings_getApiUrl)
  let ?new = "[SetItem KEYS_SETTINGS (JObj (set_prop p ''id'' (JStr ''global_settings'')))] @
          map (\<lambda>cb. Invoke cb (JObj (set_prop p ''id'' (JStr ''global_settings''))))
            (subscribers ?s KEYS_SETTINGS) @
          [Fetch (POST (getApiUrl ?s) Update ''settings''
             (JObj (set_prop p ''id'' (JStr ''global_settings''))))]"
  have t: "trace (saveSettings p ?s) = trace st @ (evs @ ?new)"
    using evs(1) by (simp only: saveSettings_trace append_assoc)
  have "\<forall>e\<in>set ?new. settings_event e"
    by (auto simp: settings_event_def)
  with evs(2) have "\<forall>e\<in>set (evs @ ?new). settings_event e" by auto
  with t u show ?case unfolding f by blast
qed

text \<open>
  C4: after any non-empty sequence of saveSettings calls the settings key holds one
  object; its id is \<open>global_settings\<close> and every other field is that of the last
  payload. Every effect of the calls (local write, notification, remote update) carries
  a record with that id, and the last effect is the remote update with the stored
  record.
\<close>

theorem saveSettings_singleton:
  assumes "payloads \<noteq> []"
  shows "\<exists>stored evs.
           localStorage (foldl (\<lambda>s p. saveSettings p s) st payloads) KEYS_SETTINGS = Some (JObj stored)
         \<and> map_of stored ''id'' = Some (JStr ''global_settings'')
         \<and> (\<forall>k. k \<noteq> ''id'' \<longrightarrow> map_of stored k = map_of (last payloads) k)
         \<and> trace (foldl (\<lambda>s p. saveSettings p s) st payloads) = trace st @ evs
         \<and> (\<forall>e\<in>set evs. settings_event e)
         \<and> last evs = Fetch (POST (getApiUrl st) Update ''settings'' (JObj stored))"
proof -
  from assms obtain ps p where pp: "payloads = ps @ [p]"
    by (metis append_butlast_last_id)
  let ?s = "foldl (\<lambda>s p. saveSettings p s) st ps"
  let ?stored = "set_prop p ''id'' (JStr ''global_settings'')"
  have f: "foldl (\<lambda>s p. saveSettings p s) st payloads = saveSettings p ?s"
    unfolding pp by (simp only: foldl_append foldl_Cons foldl_Nil)
  from saveSettings_run [of st ps] obtain evs0 where
    evs0: "trace ?s = trace st @ evs0" "\<forall>e\<in>set evs0. settings_event e"
    and u: "getApiUrl ?s = getApiUrl st"
    by blast
  let ?new = "[SetItem KEYS_SETTINGS (JObj ?stored)] @
          map (\<lambda>cb. Invoke cb (JObj ?stored)) (subscribers ?s KEYS_SETTINGS) @
          [Fetch (POST (getApiUrl st) Update ''settings'' (JObj ?stored))]"
  have t: "trace (saveSettings p ?s) = trace st @ (evs0 @ ?new)"
    using evs0(1) u by (simp only: saveSettings_trace append_assoc)
  have n: "\<forall>e\<in>set ?new. settings_event e"
    by (auto simp: settings_event_def)
  with evs0(2) have all: "\<forall>e\<in>set (evs0 @ ?new). settings_event e" by auto
  have le: "last (evs0 @ ?new) = Fetch (POST (getApiUrl st) Update ''settings'' (JObj ?stored))"
    by simp
  have st: "localStorage (saveSettings p ?s) KEYS_SETTINGS = Some (JObj ?stored)"
    by (rule saveSettings_store)
  have k: "\<forall>k. k \<noteq> ''id'' \<longrightarrow> map_of ?stored k = map_of (last payloads) k"
    by (simp add: pp)
  have i: "map_of ?stored ''id'' = Some (JStr ''global_settings'')" by simp
  show ?thesis
    unfolding f using st i k t all le by blast
qed

theorem saveSettings_singleton_witness:
  "[settings_a, settings_b] \<noteq> []
   \<and> localStorage (foldl (\<lambda>s p. saveSettings p s) initial_state [settings_a, settings_b]) KEYS_SETTINGS
       = Some (JObj [(''id'', JStr ''global_settings''), (''certBackground'', JStr ''b.png'')])
   \<and> (\<exists>stored evs.
           localStorage (foldl (\<lambda>s p. saveSettings p s) initial_state [settings_a, settings_b]) KEYS_SETTINGS
             = Some (JObj stored)
         \<and> map_of stored ''id'' = Some (JStr ''global_settings'')
         \<and> (\<forall>k. k \<noteq> ''id'' \<longrightarrow> map_of stored k = map_of settings_b k)
         \<and> trace (foldl (\<lambda>s p. saveSettings p s) initial_state [settings_a, settings_b])
             = trace initial_state @ evs
         \<and> (\<forall>e\<in>set evs. settings_event e)
         \<and> last evs = Fetch (POST DEFAULT_API_URL Update ''settings'' (JObj stored)))"
proof -
  have h: "[settings_a, settings_b] \<noteq> []" by simp
  have u: "getApiUrl initial_state = DEFAULT_API_URL"
    by (simp add: getApiUrl_def initial_state_def)
  have v: "localStorage (foldl (\<lambda>s p. saveSettings p s) initial_state [settings_a, settings_b]) KEYS_SETTINGS
       = Some (JObj [(''id'', JStr ''global_settings''), (''certBackground'', JStr ''b.png'')])"
    by (simp add: saveSettings_store settings_b_def)
  from saveSettings_singleton [OF h, of initial_state] v u show ?thesis by simp
qed

subsection \<open>Subscribing\<close>

lemma two_students_facts:
  "listeners two_students KEYS_STUDENTS = Some [1, 2]"
  "localStorage two_students KEYS_STUDENTS = Some (JArr [JObj row_s1, JObj row_s2])"
  "trace two_students = []"
  "getApiUrl two_students = DEFAULT_API_URL"
  by (simp_all add: two_students_def initial_state_def getApiUrl_def)

lemma createSubscriber_eq:
  "listeners st key = Some cbs \<Longrightarrow>
   createSubscriber key tableName callback st =
     Inr (st\<lparr>listeners := (listeners st)(key \<mapsto> cbs @ [callback]),
             trace := trace st @ [Invoke callback (getData st key),
                                  Fetch (GET (getApiUrl st) tableName)]\<rparr>)"
  by (simp add: createSubscriber_def Let_def apiFetch_send_eq getApiUrl_nonempty getData_def)

lemma createSubscriber_then_overwrite:
  "rows \<noteq> [] \<Longrightarrow> localStorage s key \<noteq> Some (JArr rows) \<Longrightarrow>
   createSubscriber_then key callback (JArr rows) s =
     s\<lparr>localStorage := (localStorage s)(key \<mapsto> JArr rows),
        trace := trace s @ [SetItem key (JArr rows), Invoke callback (JArr rows)]\<rparr>"
  by (simp add: createSubscriber_then_def Let_def setItem_def)

lemma createSubscriber_then_same:
  "localStorage s key = Some (JArr rows) \<Longrightarrow> createSubscriber_then key callback (JArr rows) s = s"
  by (simp add: createSubscriber_then_def Let_def)

lemma createSubscriber_then_empty: "createSubscriber_then key callback (JArr []) s = s"
  by (simp add: createSubscriber_then_def)

lemma createSubscriber_then_non_array:
  "\<forall>rows. cloud \<noteq> JArr rows \<Longrightarrow> createSubscriber_then key callback cloud s = s"
  by (cases cloud) (simp_all add: createSubscriber_then_def)

lemma createSubscriber_replay:
  assumes "listeners st key = Some cbs"
  shows "\<exists>st1.
           createSubscriber key tableName callback st = Inr st1
         \<and> listeners st1 = (listeners st)(key \<mapsto> cbs @ [callback])
         \<and> localStorage st1 = localStorage st
         \<and> trace st1 = trace st @ [Invoke callback (getData st key),
                                    Fetch (GET (getApiUrl st) tableName)]
         \<and> (\<forall>response s.
               let cloud = apiFetch_resolve response;
                   s' = createSubscriber_then key callback cloud s
               in if (\<exists>rows. cloud = JArr rows \<and> rows \<noteq> []) \<and> localStorage s key \<noteq> Some cloud
                  then localStorage s' = (localStorage s)(key \<mapsto> cloud)
                     \<and> trace s' = trace s @ [SetItem key cloud, Invoke callback cloud]
                     \<and> listeners s' = listeners s
                  else s' = s)
         \<and> (\<forall>s. createSubscriber_then key callback (apiFetch_resolve None) s = s)
         \<and> (\<forall>s. createSubscriber_then key callback (apiFetch_resolve (Some (JArr []))) s = s)
         \<and> (\<forall>s doc. (\<forall>rows. doc \<noteq> JArr rows)
               \<longrightarrow> createSubscriber_then key callback (apiFetch_resolve (Some doc)) s = s)"
proof -
  let ?st1 = "st\<lparr>listeners := (listeners st)(key \<mapsto> cbs @ [callback]),
             trace := trace st @ [Invoke callback (getData st key),
                                  Fetch (GET (getApiUrl st) tableName)]\<rparr>"
  have a: "createSubscriber key tableName callback st = Inr ?st1"
    using assms by (rule createSubscriber_eq)
  have b: "\<forall>response s.
               let cloud = apiFetch_resolve response;
                   s' = createSubscriber_then key callback cloud s
               in if (\<exists>rows. cloud = JArr rows \<and> rows \<noteq> []) \<and> localStorage s key \<noteq> Some cloud
                  then localStorage s' = (localStorage s)(key \<mapsto> cloud)
                     \<and> trace s' = trace s @ [SetItem key cloud, Invoke callback cloud]
                     \<and> listeners s' = listeners s
                  else s' = s"
  proof (intro allI)
    fix response s
    show "let cloud = apiFetch_resolve response;
                   s' = createSubscriber_then key callback cloud s
               in if (\<exists>rows. cloud = JArr rows \<and> rows \<noteq> []) \<and> localStorage s key \<noteq> Some cloud
                  then localStorage s' = (localStorage s)(key \<mapsto> cloud)
                     \<and> trace s' = trace s @ [SetItem key cloud, Invoke callback cloud]
                     \<and> listeners s' = listeners s
                  else s' = s"
    proof (cases "apiFetch_resolve response")
      case (JArr rows)
      show ?thesis
      proof (cases "rows = []")
        case True
        with JArr show ?thesis by (simp add: createSubscriber_then_empty)
      next
        case False
        show ?thesis
        proof (cases "localStorage s key = Some (JArr rows)")
          case True
          with JArr show ?thesis by (simp add: createSubscriber_then_same)
        next
          case F2: False
          with JArr False show ?thesis by (simp add: createSubscriber_then_overwrite)
        qed
      qed
    qed (simp_all add: createSubscriber_then_non_array)
  qed
  have c: "\<forall>s. createSubscriber_then key callback (apiFetch_resolve None) s = s"
    by (simp add: apiFetch_resolve_def createSubscriber_then_non_array)
  have d: "\<forall>s. createSubscriber_then key callback (apiFetch_resolve (Some (JArr []))) s = s"
    by (simp add: apiFetch_resolve_def createSubscriber_then_empty)
  have e: "\<forall>s doc. (\<forall>rows. doc \<noteq> JArr rows)
               \<longrightarrow> createSubscriber_then key callback (apiFetch_resolve (Some doc)) s = s"
    by (simp add: apiFetch_resolve_def createSubscriber_then_non_array)
  have f: "listeners ?st1 = (listeners st)(key \<mapsto> cbs @ [callback])" by simp
  have g: "localStorage ?st1 = localStorage st" by simp
  have h: "trace ?st1 = trace st @ [Invoke callback (getData st key),
                                    Fetch (GET (getApiUrl st) tableName)]" by simp
  show ?thesis
    using a f g h b c d e by (intro exI [of _ ?st1] conjI)
qed

lemma subscribeSettings_eq:
  "listeners st KEYS_SETTINGS = Some cbs \<Longrightarrow>
   subscribeSettings default_cert_bg cb st =
     Inr (st\<lparr>listeners := (listeners st)(KEYS_SETTINGS \<mapsto> cbs @ [cb]),
             trace := trace st @
               [Invoke cb (case localStorage st KEYS_SETTINGS of
                             None \<Rightarrow> JObj [(''certBackground'', default_cert_bg)]
                           | Some saved \<Rightarrow> saved),
                Fetch (GET (getApiUrl st) ''settings'')]\<rparr>)"
  by (simp add: subscribeSettings_def Let_def apiFetch_send_eq getApiUrl_nonempty)

lemma has_id_string_truthy: "has_id g (Some (JStr s)) \<Longrightarrow> truthy (Some g)"
  by (cases g) (simp_all add: has_id_def)

lemma find_global_eq:
  "JNull \<notin> set rows \<Longrightarrow>
     find_global rows =
       Inr (case filter (\<lambda>r. has_id r (Some (JStr ''global_settings''))) rows of
              [] \<Rightarrow> None
            | g # _ \<Rightarrow> Some g)"
proof (induction rows)
  case Nil
  then show ?case by simp
next
  case (Cons x rest)
  then obtain w where w: "get_id x = Inr w"
    using get_id_nonnull [of x] by auto
  with Cons show ?case by (simp add: has_id_def)
qed

lemma subscribeSettings_then_rows:
  assumes "rows \<noteq> []" and "JNull \<notin> set rows"
  shows "subscribeSettings_then gt_zero cb (JArr rows) s =
           (let chosen = (case filter (\<lambda>r. has_id r (Some (JStr ''global_settings''))) rows of
                            [] \<Rightarrow> hd rows
                          | g # _ \<Rightarrow> g)
            in if truthy (Some chosen)
               then Inr (s\<lparr>localStorage := (localStorage s)(KEYS_SETTINGS \<mapsto> chosen),
                           trace := trace s @ [SetItem KEYS_SETTINGS chosen, Invoke cb chosen]\<rparr>)
               else Inr s)"
proof -
  from assms(1) obtain first rest where rows: "rows = first # rest" by (cases rows) auto
  let ?hits = "filter (\<lambda>r. has_id r (Some (JStr ''global_settings''))) rows"
  show ?thesis
  proof (cases ?hits)
    case Nil
    with find_global_eq [OF assms(2)] have f: "find_global rows = Inr None" by simp
    show ?thesis
      unfolding subscribeSettings_then_def Let_def
      using f Nil rows by (simp add: setItem_def)
  next
    case (Cons g more)
    with find_global_eq [OF assms(2)] have f: "find_global rows = Inr (Some g)" by simp
    from Cons have "g \<in> set ?hits" by simp
    then have "has_id g (Some (JStr ''global_settings''))" by simp
    then have t: "truthy (Some g)" by (rule has_id_string_truthy)
    show ?thesis
      unfolding subscribeSettings_then_def Let_def
      using f Cons rows t by (simp add: setItem_def)
  qed
qed

text \<open>
  C2, as the spec states it: for every subscription the callback is first invoked with
  the local store contents, and a second time only if the remote array differs from the
  cached serialised form. The code does otherwise for subscribeSettings. With the remote
  settings array cached under the settings key, a fetch that returns the very same array
  still writes the key and invokes the callback a second time; and with nothing
  stored the first invocation carries a default object.
\<close>

theorem subscribeSettings_equal_snapshot_counterexample:
  "localStorage synced_settings KEYS_SETTINGS = Some (JArr [JObj settings_row])
   \<and> trace_after
       (and_then (subscribeSettings (JStr ''bg.png'') 7 synced_settings)
          (subscribeSettings_then no_length 7 (apiFetch_resolve (Some (JArr [JObj settings_row])))))
     = Inr [Invoke 7 (JArr [JObj settings_row]),
            Fetch (GET DEFAULT_API_URL ''settings''),
            SetItem KEYS_SETTINGS (JObj settings_row),
            Invoke 7 (JObj settings_row)]
   \<and> createSubscriber_then KEYS_SETTINGS 7 (apiFetch_resolve (Some (JArr [JObj settings_row])))
       synced_settings = synced_settings
   \<and> localStorage initial_state KEYS_SETTINGS = None
   \<and> trace_after (subscribeSettings (JStr ''bg.png'') 7 initial_state)
     = Inr [Invoke 7 (JObj [(''certBackground'', JStr ''bg.png'')]),
            Fetch (GET DEFAULT_API_URL ''settings'')]"
proof -
  have l: "listeners synced_settings KEYS_SETTINGS = Some []"
    "listeners initial_state KEYS_SETTINGS = Some []"
    by (simp_all add: synced_settings_def initial_state_def)
  have c: "localStorage synced_settings KEYS_SETTINGS = Some (JArr [JObj settings_row])"
    "localStorage initial_state KEYS_SETTINGS = None"
    by (simp_all add: synced_settings_def initial_state_def)
  have u: "getApiUrl synced_settings = DEFAULT_API_URL" "getApiUrl initial_state = DEFAULT_API_URL"
    by (simp_all add: synced_settings_def initial_state_def getApiUrl_def)
  have t: "trace synced_settings = []" "trace initial_state = []"
    by (simp_all add: synced_settings_def initial_state_def)
  have n: "JNull \<notin> set [JObj settings_row]" "[JObj settings_row] \<noteq> []" by simp_all
  have h: "has_id (JObj settings_row) (Some (JStr ''global_settings''))"
    by (simp add: has_id_def settings_row_def)
  have a: "trace_after
       (and_then (subscribeSettings (JStr ''bg.png'') 7 synced_settings)
          (subscribeSettings_then no_length 7 (apiFetch_resolve (Some (JArr [JObj settings_row])))))
     = Inr [Invoke 7 (JArr [JObj settings_row]),
            Fetch (GET DEFAULT_API_URL ''settings''),
            SetItem KEYS_SETTINGS (JObj settings_row),
            Invoke 7 (JObj settings_row)]"
    by (simp add: subscribeSettings_eq [OF l(1)] and_then_def apiFetch_resolve_def
        subscribeSettings_then_rows [OF n(2) n(1)] h c u t trace_after_def Let_def)
  have b: "createSubscriber_then KEYS_SETTINGS 7 (apiFetch_resolve (Some (JArr [JObj settings_row])))
       synced_settings = synced_settings"
    by (simp add: apiFetch_resolve_def createSubscriber_then_same [OF c(1)])
  have d: "trace_after (subscribeSettings (JStr ''bg.png'') 7 initial_state)
     = Inr [Invoke 7 (JObj [(''certBackground'', JStr ''bg.png'')]),
            Fetch (GET DEFAULT_API_URL ''settings'')]"
    by (simp add: subscribeSettings_eq [OF l(2)] c u t trace_after_def)
  from c(1) a b c(2) d show ?thesis by (intro conjI)
qed

text \<open>
  C2, amended. For a subscription made by createSubscriber (users, students, materials,
  submissions): the callback is invoked with the current local contents, then the
  remote fetch starts, and the local store is as it was. When the fetch has resolved,
  the callback is invoked a second time exactly when the result is a non-empty array
  whose serialised form differs from the cached one, and then the local store is
  overwritten with the remote data before that invocation; a failed fetch (null), a
  result that is no array, an empty array, and an array equal to the cache leave the
  whole state as it is. subscribeSettings differs: its first invocation carries the
  stored settings document, or the default object with the default certificate
  background when nothing is stored; and when the fetch returns a non-empty array of
  records it takes the first record with id \<open>global_settings\<close>, or else the first
  record, and if that is truthy stores it and invokes the callback a second time,
  whatever the cache holds. A failed fetch and an empty array leave the state as it is.
\<close>

theorem subscriptions_replay_then_reconcile:
  assumes "listeners st key = Some cbs" and "listeners st KEYS_SETTINGS = Some scbs"
  shows "(\<exists>st1.
           createSubscriber key tableName callback st = Inr st1
         \<and> listeners st1 = (listeners st)(key \<mapsto> cbs @ [callback])
         \<and> localStorage st1 = localStorage st
         \<and> trace st1 = trace st @ [Invoke callback (getData st key),
                                    Fetch (GET (getApiUrl st) tableName)]
         \<and> (\<forall>response s.
               let cloud = apiFetch_resolve response;
                   s' = createSubscriber_then key callback cloud s
               in if (\<exists>rows. cloud = JArr rows \<and> rows \<noteq> []) \<and> localStorage s key \<noteq> Some cloud
                  then localStorage s' = (localStorage s)(key \<mapsto> cloud)
                     \<and> trace s' = trace s @ [SetItem key cloud, Invoke callback cloud]
                     \<and> listeners s' = listeners s
                  else s' = s)
         \<and> (\<forall>s. createSubscriber_then key callback (apiFetch_resolve None) s = s)
         \<and> (\<forall>s. createSubscriber_then key callback (apiFetch_resolve (Some (JArr []))) s = s)
         \<and> (\<forall>s doc. (\<forall>rows. doc \<noteq> JArr rows)
               \<longrightarrow> createSubscriber_then key callback (apiFetch_resolve (Some doc)) s = s))
       \<and> (\<exists>st2.
           subscribeSettings default_cert_bg callback st = Inr st2
         \<and> listeners st2 = (listeners st)(KEYS_SETTINGS \<mapsto> scbs @ [callback])
         \<and> localStorage st2 = localStorage st
         \<and> trace st2 = trace st @
             [Invoke callback (case localStorage st KEYS_SETTINGS of
                                 None \<Rightarrow> JObj [(''certBackground'', default_cert_bg)]
                               | Some saved \<Rightarrow> saved),
              Fetch (GET (getApiUrl st) ''settings'')])
       \<and> (\<forall>s. subscribeSettings_then gt_zero callback (apiFetch_resolve None) s = Inr s)
       \<and> (\<forall>s. subscribeSettings_then gt_zero callback (apiFetch_resolve (Some (JArr []))) s = Inr s)
       \<and> (\<forall>s rows. rows \<noteq> [] \<and> JNull \<notin> set rows \<longrightarrow>
             subscribeSettings_then gt_zero callback (apiFetch_resolve (Some (JArr rows))) s =
               (let chosen = (case filter (\<lambda>r. has_id r (Some (JStr ''global_settings''))) rows of
                                [] \<Rightarrow> hd rows
                              | g # _ \<Rightarrow> g)
                in if truthy (Some chosen)
                   then Inr (s\<lparr>localStorage := (localStorage s)(KEYS_SETTINGS \<mapsto> chosen),
                               trace := trace s @ [SetItem KEYS_SETTINGS chosen,
                                                   Invoke callback chosen]\<rparr>)
                   else Inr s))"
proof -
  let ?st2 = "st\<lparr>listeners := (listeners st)(KEYS_SETTINGS \<mapsto> scbs @ [callback]),
             trace := trace st @
               [Invoke callback (case localStorage st KEYS_SETTINGS of
                             None \<Rightarrow> JObj [(''certBackground'', default_cert_bg)]
                           | Some saved \<Rightarrow> saved),
                Fetch (GET (getApiUrl st) ''settings'')]\<rparr>"
  note a = createSubscriber_replay [OF assms(1), of tableName callback]
  have b0: "subscribeSettings default_cert_bg callback st = Inr ?st2"
    using assms(2) by (rule subscribeSettings_eq)
  have b: "\<exists>st2.
           subscribeSettings default_cert_bg callback st = Inr st2
         \<and> listeners st2 = (listeners st)(KEYS_SETTINGS \<mapsto> scbs @ [callback])
         \<and> localStorage st2 = localStorage st
         \<and> trace st2 = trace st @
             [Invoke callback (case localStorage st KEYS_SETTINGS of
                                 None \<Rightarrow> JObj [(''certBackground'', default_cert_bg)]
                               | Some saved \<Rightarrow> saved),
              Fetch (GET (getApiUrl st) ''settings'')]"
    using b0 by (intro exI [of _ ?st2] conjI) simp_all
  have c: "\<forall>s. subscribeSettings_then gt_zero callback (apiFetch_resolve None) s = Inr s"
    by (simp add: apiFetch_resolve_def subscribeSettings_then_def)
  have d: "\<forall>s. subscribeSettings_then gt_zero callback (apiFetch_resolve (Some (JArr []))) s = Inr s"
    by (simp add: apiFetch_resolve_def subscribeSettings_then_def)
  have e: "\<forall>s rows. rows \<noteq> [] \<and> JNull \<notin> set rows \<longrightarrow>
             subscribeSettings_then gt_zero callback (apiFetch_resolve (Some (JArr rows))) s =
               (let chosen = (case filter (\<lambda>r. has_id r (Some (JStr ''global_settings''))) rows of
                                [] \<Rightarrow> hd rows
                              | g # _ \<Rightarrow> g)
                in if truthy (Some chosen)
                   then Inr (s\<lparr>localStorage := (localStorage s)(KEYS_SETTINGS \<mapsto> chosen),
                               trace := trace s @ [SetItem KEYS_SETTINGS chosen,
                                                   Invoke callback chosen]\<rparr>)
                   else Inr s)"
    using subscribeSettings_then_rows [of _ gt_zero callback]
    by (simp add: apiFetch_resolve_def)
  from a b c d e show ?thesis by (intro conjI)
qed

theorem subscriptions_replay_then_reconcile_witness:
  "listeners two_students KEYS_STUDENTS = Some [1, 2]
   \<and> listeners two_students KEYS_SETTINGS = Some []
   \<and> (\<exists>st1. createSubscriber KEYS_STUDENTS ''students'' 3 two_students = Inr st1
          \<and> trace st1 = [Invoke 3 (JArr [JObj row_s1, JObj row_s2]),
                          Fetch (GET DEFAULT_API_URL ''students'')]
          \<and> trace (createSubscriber_then KEYS_STUDENTS 3
                      (apiFetch_resolve (Some (JArr [JObj row_s2]))) st1) =
              trace st1 @ [SetItem KEYS_STUDENTS (JArr [JObj row_s2]), Invoke 3 (JArr [JObj row_s2])]
          \<and> createSubscriber_then KEYS_STUDENTS 3
               (apiFetch_resolve (Some (JArr [JObj row_s1, JObj row_s2]))) st1 = st1
          \<and> createSubscriber_then KEYS_STUDENTS 3 (apiFetch_resolve None) st1 = st1)
   \<and> (\<exists>st2. subscribeSettings (JStr ''bg.png'') 3 two_students = Inr st2
          \<and> trace st2 = [Invoke 3 (JObj [(''certBackground'', JStr ''bg.png'')]),
                          Fetch (GET DEFAULT_API_URL ''settings'')])
   \<and> subscribeSettings_then no_length 3 (apiFetch_resolve (Some (JArr [JObj row_s1, JObj settings_row])))
       two_students =
      Inr (two_students\<lparr>localStorage := (localStorage two_students)(KEYS_SETTINGS \<mapsto> JObj settings_row),
                         trace := [SetItem KEYS_SETTINGS (JObj settings_row),
                                   Invoke 3 (JObj settings_row)]\<rparr>)
   \<and> subscribeSettings_then no_length 3 (apiFetch_resolve None) two_students = Inr two_students"
proof -
  note h = two_students_facts(1)
  have hs: "listeners two_students KEYS_SETTINGS = Some []"
    by (simp add: two_students_def initial_state_def KEYS_STUDENTS_def KEYS_SETTINGS_def)
  have ls: "localStorage two_students KEYS_SETTINGS = None"
    by (simp add: two_students_def KEYS_STUDENTS_def KEYS_SETTINGS_def)
  let ?then = "createSubscriber_then KEYS_STUDENTS 3"
  note inst = subscriptions_replay_then_reconcile
    [where tableName = "''students''" and callback = 3 and default_cert_bg = "JStr ''bg.png''"
       and gt_zero = no_length, OF h hs]
  from inst obtain st1 where r:
    "createSubscriber KEYS_STUDENTS ''students'' 3 two_students = Inr st1"
    "localStorage st1 = localStorage two_students"
    "trace st1 = trace two_students @ [Invoke 3 (getData two_students KEYS_STUDENTS),
                                       Fetch (GET (getApiUrl two_students) ''students'')]"
    "\<forall>response s.
               let cloud = apiFetch_resolve response;
                   s' = ?then cloud s
               in if (\<exists>rows. cloud = JArr rows \<and> rows \<noteq> []) \<and> localStorage s KEYS_STUDENTS \<noteq> Some cloud
                  then localStorage s' = (localStorage s)(KEYS_STUDENTS \<mapsto> cloud)
                     \<and> trace s' = trace s @ [SetItem KEYS_STUDENTS cloud, Invoke 3 cloud]
                     \<and> listeners s' = listeners s
                  else s' = s"
    "\<forall>s. ?then (apiFetch_resolve None) s = s"
    by (elim exE conjE)
  from inst obtain st2 where q:
    "subscribeSettings (JStr ''bg.png'') 3 two_students = Inr st2"
    "trace st2 = trace two_students @
             [Invoke 3 (case localStorage two_students KEYS_SETTINGS of
                                 None \<Rightarrow> JObj [(''certBackground'', JStr ''bg.png'')]
                               | Some saved \<Rightarrow> saved),
              Fetch (GET (getApiUrl two_students) ''settings'')]"
    by (elim exE conjE)
  from inst have w1:
    "\<forall>s. subscribeSettings_then no_length 3 (apiFetch_resolve None) s = Inr s"
    by (elim exE conjE)
  from inst have w2:
    "\<forall>s rows. rows \<noteq> [] \<and> JNull \<notin> set rows \<longrightarrow>
             subscribeSettings_then no_length 3 (apiFetch_resolve (Some (JArr rows))) s =
               (let chosen = (case filter (\<lambda>r. has_id r (Some (JStr ''global_settings''))) rows of
                                [] \<Rightarrow> hd rows
                              | g # _ \<Rightarrow> g)
                in if truthy (Some chosen)
                   then Inr (s\<lparr>localStorage := (localStorage s)(KEYS_SETTINGS \<mapsto> chosen),
                               trace := trace s @ [SetItem KEYS_SETTINGS chosen,
                                                   Invoke 3 chosen]\<rparr>)
                   else Inr s)"
    by (elim exE conjE)
  have t: "trace st1 = [Invoke 3 (JArr [JObj row_s1, JObj row_s2]),
                          Fetch (GET DEFAULT_API_URL ''students'')]"
    using r(3) by (simp add: two_students_facts getData_def)
  have l: "localStorage st1 KEYS_STUDENTS = Some (JArr [JObj row_s1, JObj row_s2])"
    using r(2) by (simp add: two_students_facts)
  from r(4) [rule_format, of "Some (JArr [JObj row_s2])" st1] l
  have o: "trace (?then (apiFetch_resolve (Some (JArr [JObj row_s2]))) st1) =
              trace st1 @ [SetItem KEYS_STUDENTS (JArr [JObj row_s2]), Invoke 3 (JArr [JObj row_s2])]"
    by (simp add: apiFetch_resolve_def Let_def)
  from r(4) [rule_format, of "Some (JArr [JObj row_s1, JObj row_s2])" st1] l
  have e: "?then (apiFetch_resolve (Some (JArr [JObj row_s1, JObj row_s2]))) st1 = st1"
    by (simp add: apiFetch_resolve_def Let_def)
  from r(5) have n: "?then (apiFetch_resolve None) st1 = st1" by simp
  from r(1) t o e n have p1: "\<exists>st1. createSubscriber KEYS_STUDENTS ''students'' 3 two_students = Inr st1
          \<and> trace st1 = [Invoke 3 (JArr [JObj row_s1, JObj row_s2]),
                          Fetch (GET DEFAULT_API_URL ''students'')]
          \<and> trace (createSubscriber_then KEYS_STUDENTS 3
                      (apiFetch_resolve (Some (JArr [JObj row_s2]))) st1) =
              trace st1 @ [SetItem KEYS_STUDENTS (JArr [JObj row_s2]), Invoke 3 (JArr [JObj row_s2])]
          \<and> createSubscriber_then KEYS_STUDENTS 3
               (apiFetch_resolve (Some (JArr [JObj row_s1, JObj row_s2]))) st1 = st1
          \<and> createSubscriber_then KEYS_STUDENTS 3 (apiFetch_resolve None) st1 = st1"
    by (intro exI conjI)
  from q(2) have t2: "trace st2 = [Invoke 3 (JObj [(''certBackground'', JStr ''bg.png'')]),
                          Fetch (GET DEFAULT_API_URL ''settings'')]"
    by (simp add: two_students_facts ls)
  from q(1) t2 have p2: "\<exists>st2. subscribeSettings (JStr ''bg.png'') 3 two_students = Inr st2
          \<and> trace st2 = [Invoke 3 (JObj [(''certBackground'', JStr ''bg.png'')]),
                          Fetch (GET DEFAULT_API_URL ''settings'')]"
    by (intro exI conjI)
  have nh: "\<not> has_id (JObj row_s1) (Some (JStr ''global_settings''))"
    "has_id (JObj settings_row) (Some (JStr ''global_settings''))"
    by (simp_all add: has_id_def row_s1_def settings_row_def)
  have "[JObj row_s1, JObj settings_row] \<noteq> [] \<and> JNull \<notin> set [JObj row_s1, JObj settings_row]"
    by simp
  from w2 [rule_format, OF this, of two_students]
  have p3: "subscribeSettings_then no_length 3
              (apiFetch_resolve (Some (JArr [JObj row_s1, JObj settings_row]))) two_students =
      Inr (two_students\<lparr>localStorage := (localStorage two_students)(KEYS_SETTINGS \<mapsto> JObj settings_row),
                         trace := [SetItem KEYS_SETTINGS (JObj settings_row),
                                   Invoke 3 (JObj settings_row)]\<rparr>)"
    by (simp add: nh two_students_facts Let_def)
  from w1 have p4: "subscribeSettings_then no_length 3 (apiFetch_resolve None) two_students
      = Inr two_students" by simp
  from h hs p1 p2 p3 p4 show ?thesis by (intro conjI)
qed

text \<open>
  C10: when the remote snapshot is a non-empty array that differs from the cache, the
  continuation writes the store and invokes the subscribing callback alone: no other
  callback is invoked, although the notifier would have reached every registered
  callback. The registry is unchanged, so the next local write notifies them all.
\<close>

theorem reconcile_invokes_only_the_subscriber:
  assumes "rows \<noteq> []" and "localStorage st key \<noteq> Some (JArr rows)"
  shows "trace (createSubscriber_then key callback (JArr rows) st) =
           trace st @ [SetItem key (JArr rows), Invoke callback (JArr rows)]
       \<and> (\<forall>cb doc. cb \<noteq> callback \<longrightarrow>
             Invoke cb doc \<notin> set (drop (length (trace st))
                                   (trace (createSubscriber_then key callback (JArr rows) st))))
       \<and> getData (createSubscriber_then key callback (JArr rows) st) key = JArr rows
       \<and> listeners (createSubscriber_then key callback (JArr rows) st) = listeners st
       \<and> trace (notify key (JArr rows) (setItem key (JArr rows) st)) =
           trace st @ [SetItem key (JArr rows)] @ map (\<lambda>cb. Invoke cb (JArr rows)) (subscribers st key)
       \<and> trace (setData key data (createSubscriber_then key callback (JArr rows) st)) =
           trace (createSubscriber_then key callback (JArr rows) st) @ [SetItem key (JArr data)] @
           map (\<lambda>cb. Invoke cb (JArr data)) (subscribers st key)"
  using assms
  by (simp add: createSubscriber_then_overwrite getData_def setData_eq notify_eq setItem_def
      subscribers_def)

theorem reconcile_invokes_only_the_subscriber_witness:
  "[JObj row_s2] \<noteq> []
   \<and> localStorage two_students KEYS_STUDENTS \<noteq> Some (JArr [JObj row_s2])
   \<and> subscribers two_students KEYS_STUDENTS = [1, 2]
   \<and> trace (createSubscriber_then KEYS_STUDENTS 2 (JArr [JObj row_s2]) two_students) =
       [SetItem KEYS_STUDENTS (JArr [JObj row_s2]), Invoke 2 (JArr [JObj row_s2])]
   \<and> Invoke 1 (JArr [JObj row_s2]) \<notin>
       set (trace (createSubscriber_then KEYS_STUDENTS 2 (JArr [JObj row_s2]) two_students))
   \<and> trace (setData KEYS_STUDENTS [JObj row_s1]
              (createSubscriber_then KEYS_STUDENTS 2 (JArr [JObj row_s2]) two_students)) =
       [SetItem KEYS_STUDENTS (JArr [JObj row_s2]), Invoke 2 (JArr [JObj row_s2]),
        SetItem KEYS_STUDENTS (JArr [JObj row_s1]),
        Invoke 1 (JArr [JObj row_s1]), Invoke 2 (JArr [JObj row_s1])]"
proof -
  have h1: "[JObj row_s2] \<noteq> []" by simp
  have h2: "localStorage two_students KEYS_STUDENTS \<noteq> Some (JArr [JObj row_s2])"
    by (simp add: two_students_facts)
  have s: "subscribers two_students KEYS_STUDENTS = [1, 2]"
    by (simp add: subscribers_def two_students_facts)
  from reconcile_invokes_only_the_subscriber [OF h1 h2, of 2 "[JObj row_s1]"] h1 h2 s
  show ?thesis by (simp add: two_students_facts)
qed

subsection \<open>Unsubscribing\<close>

lemma count_list_filter_other:
  "c \<noteq> x \<Longrightarrow> count_list (filter (\<lambda>cb. cb \<noteq> x) cbs) c = count_list cbs c"
  by (induction cbs) auto

text \<open>
  C8, as the spec states it: unsubscribe removes exactly the one registration it was
  created for, and other registrations of the same callback remain. The code does
  otherwise: after the same callback has subscribed twice to the students table, one
  unsubscribe leaves no registration at all.
\<close>

theorem unsubscribe_duplicate_counterexample:
  "registered_after KEYS_STUDENTS
     (and_then (createSubscriber KEYS_STUDENTS ''students'' 7 initial_state)
        (createSubscriber KEYS_STUDENTS ''students'' 7))
     = Inr (Some [7, 7])
   \<and> registered_after KEYS_STUDENTS
       (and_then
          (and_then (createSubscriber KEYS_STUDENTS ''students'' 7 initial_state)
             (createSubscriber KEYS_STUDENTS ''students'' 7))
          (unsubscribe KEYS_STUDENTS 7))
     = Inr (Some [])"
  by (simp add: registered_after_def createSubscriber_def Let_def apiFetch_send_eq and_then_def unsubscribe_def
      initial_state_def getApiUrl_nonempty KEYS_STUDENTS_def KEYS_USERS_def KEYS_MATERIALS_def
      KEYS_SUBMISSIONS_def KEYS_SETTINGS_def)


text \<open>
  C8, amended: for a key of the registry, unsubscribe removes every registration of that
  callback for that key (exactly one when it was registered once). The registrations
  of every other callback stay, as many as before and in their order; the other keys,
  the local store and the trace are unchanged; and a notification for the key reaches
  exactly the registrations that stayed.
\<close>

theorem unsubscribe_removes_every_registration:
  assumes "listeners st key = Some cbs"
  shows "\<exists>st' cbs'.
           unsubscribe key callback st = Inr st'
         \<and> listeners st' key = Some cbs'
         \<and> callback \<notin> set cbs'
         \<and> (\<forall>c. c \<noteq> callback \<longrightarrow> count_list cbs' c = count_list cbs c)
         \<and> subseq cbs' cbs
         \<and> (count_list cbs callback = 1 \<longrightarrow> length cbs' + 1 = length cbs)
         \<and> (\<forall>k. k \<noteq> key \<longrightarrow> listeners st' k = listeners st k)
         \<and> localStorage st' = localStorage st
         \<and> trace st' = trace st
         \<and> (\<forall>doc. trace (notify key doc st') = trace st @ map (\<lambda>cb. Invoke cb doc) cbs')"
proof -
  let ?cbs' = "filter (\<lambda>cb. cb \<noteq> callback) cbs"
  let ?st' = "st\<lparr>listeners := (listeners st)(key \<mapsto> ?cbs')\<rparr>"
  have a: "unsubscribe key callback st = Inr ?st'"
    using assms by (simp add: unsubscribe_def)
  have b: "listeners ?st' key = Some ?cbs'" by simp
  have c: "callback \<notin> set ?cbs'" by simp
  have d: "\<forall>c. c \<noteq> callback \<longrightarrow> count_list ?cbs' c = count_list cbs c"
    by (simp add: count_list_filter_other)
  have e: "subseq ?cbs' cbs" by simp
  have "length ?cbs' + count_list cbs callback = length cbs"
    by (induction cbs) auto
  then have f: "count_list cbs callback = 1 \<longrightarrow> length ?cbs' + 1 = length cbs" by simp
  have g: "\<forall>k. k \<noteq> key \<longrightarrow> listeners ?st' k = listeners st k" by simp
  have h: "localStorage ?st' = localStorage st" "trace ?st' = trace st" by simp_all
  have i: "\<forall>doc. trace (notify key doc ?st') = trace st @ map (\<lambda>cb. Invoke cb doc) ?cbs'"
    by (simp add: notify_eq subscribers_def)
  show ?thesis
    using a b c d e f g h i by (intro exI [of _ ?st'] exI [of _ ?cbs'] conjI)
qed

theorem unsubscribe_removes_every_registration_witness:
  "listeners two_students KEYS_STUDENTS = Some [1, 2]
   \<and> registered_after KEYS_STUDENTS (unsubscribe KEYS_STUDENTS 1 two_students)
       = Inr (Some [2])
   \<and> (\<exists>st' cbs'.
           unsubscribe KEYS_STUDENTS 1 two_students = Inr st'
         \<and> listeners st' KEYS_STUDENTS = Some cbs'
         \<and> 1 \<notin> set cbs'
         \<and> subseq cbs' [1, 2]
         \<and> localStorage st' = localStorage two_students
         \<and> trace st' = trace two_students)"
proof -
  note h = two_students_facts(1)
  have v: "registered_after KEYS_STUDENTS (unsubscribe KEYS_STUDENTS 1 two_students)
       = Inr (Some [2])"
    by (simp add: registered_after_def unsubscribe_def h)
  from unsubscribe_removes_every_registration [OF h, of 1]
  have e: "\<exists>st' cbs'.
           unsubscribe KEYS_STUDENTS 1 two_students = Inr st'
         \<and> listeners st' KEYS_STUDENTS = Some cbs'
         \<and> 1 \<notin> set cbs'
         \<and> subseq cbs' [1, 2]
         \<and> localStorage st' = localStorage two_students
         \<and> trace st' = trace two_students"
    by (elim exE conjE) (intro exI conjI, assumption+)
  from h v e show ?thesis by (intro conjI)
qed

subsection \<open>Generated ids\<close>

lemma digit_char_cases:
  "d < 10 \<Longrightarrow> d \<in> {0, 1, 2, 3, 4, 5, 6, 7, 8, 9::nat}"
  by (simp add: eval_nat_numeral less_Suc_eq) 

lemma digit_char_code: "d < 10 \<Longrightarrow> of_char (digit_char d) = 48 + d"
proof -
  assume "d < 10"
  then have "d \<in> {0, 1, 2, 3, 4, 5, 6, 7, 8, 9::nat}" by (rule digit_char_cases)
  then show ?thesis
    by (elim insertE emptyE) (simp_all add: digit_char_def)
qed

lemma digit_char_not_underscore: "d < 10 \<Longrightarrow> digit_char d \<noteq> CHR ''_''"
proof -
  assume "d < 10"
  then have "d \<in> {0, 1, 2, 3, 4, 5, 6, 7, 8, 9::nat}" by (rule digit_char_cases)
  then show ?thesis
    by (elim insertE emptyE) (simp_all add: digit_char_def)
qed

lemma digit_char_inj:
  assumes "d < 10" and "e < 10" and "digit_char d = digit_char e"
  shows "d = e"
proof -
  have "48 + d = (of_char (digit_char d) :: nat)"
    by (rule digit_char_code [OF assms(1), symmetric])
  also have "\<dots> = of_char (digit_char e)"
    by (rule arg_cong [OF assms(3)])
  also have "\<dots> = 48 + e"
    by (rule digit_char_code [OF assms(2)])
  finally show ?thesis by (simp only: add_left_cancel)
qed

lemma show_nat_small: "n < 10 \<Longrightarrow> show_nat n = [digit_char n]"
  by (subst show_nat.simps) simp

lemma show_nat_large:
  "\<not> n < 10 \<Longrightarrow> show_nat n = show_nat (n div 10) @ [digit_char (n mod 10)]"
  by (subst show_nat.simps) simp

lemma show_nat_nonempty: "show_nat n \<noteq> []"
  by (cases "n < 10") (simp_all add: show_nat_small show_nat_large)

lemma show_nat_no_underscore: "CHR ''_'' \<notin> set (show_nat n)"
proof (induction n rule: show_nat.induct)
  case (1 n)
  show ?case
  proof (cases "n < 10")
    case True
    then show ?thesis using digit_char_not_underscore [of n] by (simp add: show_nat_small [of n])
  next
    case False
    have "n mod 10 < 10" by simp
    with False 1 show ?thesis
      using digit_char_not_underscore [of "n mod 10"] by (simp add: show_nat_large)
  qed
qed

lemma show_nat_inj: "show_nat n = show_nat m \<Longrightarrow> n = m"
proof (induction n arbitrary: m rule: show_nat.induct)
  case (1 n)
  show ?case
  proof (cases "n < 10")
    case n: True
    show ?thesis
    proof (cases "m < 10")
      case True
      with n "1.prems" show ?thesis by (simp add: show_nat_small digit_char_inj)
    next
      case False
      with n "1.prems" show_nat_nonempty [of "m div 10"] show ?thesis
        by (simp add: show_nat_small show_nat_large)
    qed
  next
    case n: False
    show ?thesis
    proof (cases "m < 10")
      case True
      with n "1.prems" show_nat_nonempty [of "n div 10"] show ?thesis
        by (simp add: show_nat_small show_nat_large)
    next
      case False
      with n "1.prems" have e: "show_nat (n div 10) = show_nat (m div 10)"
        "digit_char (n mod 10) = digit_char (m mod 10)"
        by (simp_all add: show_nat_large)
      from "1.IH" [OF n e(1)] have d: "n div 10 = m div 10" .
      from e(2) have r: "n mod 10 = m mod 10" by (simp add: digit_char_inj)
      from d r show ?thesis by (metis div_mult_mod_eq)
    qed
  qed
qed

lemma split_at_separator:
  assumes "xs @ a # ys = xs' @ a # ys'" and "a \<notin> set xs" and "a \<notin> set xs'"
  shows "xs = xs' \<and> ys = ys'"
  using assms
proof (induction xs arbitrary: xs')
  case Nil
  then show ?case by (cases xs') auto
next
  case (Cons x xs)
  then show ?case by (cases xs') auto
qed

lemma timestamp_then_rest:
  "show_nat n @ CHR ''_'' # rest = show_nat n' @ CHR ''_'' # rest' \<Longrightarrow> n = n' \<and> rest = rest'"
  using split_at_separator [of "show_nat n" "CHR ''_''" rest "show_nat n'" rest']
  by (auto simp: show_nat_no_underscore dest: show_nat_inj)

lemma generated_id_eq_iff:
  "generated_id table now rnd = generated_id table now' rnd'
     \<longleftrightarrow> now = now' \<and> substr rnd 2 5 = substr rnd' 2 5"
  using timestamp_then_rest [of now "substr rnd 2 5" now' "substr rnd' 2 5"]
  by (auto simp: generated_id_def)

lemma bulk_id_index: "bulk_id now i rnd = bulk_id now' i' rnd' \<Longrightarrow> i = i'"
proof -
  assume a: "bulk_id now i rnd = bulk_id now' i' rnd'"
  then have "show_nat now @ CHR ''_'' # (show_nat i @ CHR ''_'' # substr rnd 2 4)
           = show_nat now' @ CHR ''_'' # (show_nat i' @ CHR ''_'' # substr rnd' 2 4)"
    by (simp add: bulk_id_def)
  then have "show_nat i @ CHR ''_'' # substr rnd 2 4 = show_nat i' @ CHR ''_'' # substr rnd' 2 4"
    using timestamp_then_rest by blast
  then show "i = i'" using timestamp_then_rest by blast
qed

lemma generated_id_students: "take 4 (generated_id ''students'' now rnd) = ''stu_''"
  by (simp add: generated_id_def)

subsection \<open>Saving a record without an id\<close>

lemma saveItem_fresh:
  assumes "getData st key = JArr list" and "\<not> truthy (map_of item ''id'')"
  shows "saveItem now rnd key table item st =
           Inr (apiRequest Create table (JObj (set_prop item ''id'' (JStr (generated_id table now rnd))))
                  (setData key (list @ [JObj (set_prop item ''id'' (JStr (generated_id table now rnd)))]) st))"
  using assms by (simp add: saveItem_def Let_def)

lemma generated_id_nonempty: "generated_id table now rnd \<noteq> []"
  by (simp add: generated_id_def show_nat_nonempty)

lemma getApiUrl_after_write [simp]:
  "getApiUrl (apiRequest act table d (setData key data st)) = getApiUrl st"
  by (simp add: apiRequest_eq setData_eq)

lemma trace_after_write:
  "trace (apiRequest act table d (setData key data st)) =
     trace st @ [SetItem key (JArr data)] @ map (\<lambda>cb. Invoke cb (JArr data)) (subscribers st key) @
     [Fetch (POST (getApiUrl st) act table d)]"
  by (simp add: apiRequest_eq setData_eq)

lemma saveItem_update_single:
  assumes "getData st key = JArr [JObj row]" and "map_of row ''id'' = Some (JStr gid)" and "gid \<noteq> []"
  shows "saveItem now rnd key table row st =
           Inr (apiRequest Update table (JObj row) (setData key [JObj row] st))"
  using assms by (simp add: saveItem_def)

text \<open>
  C6, as the spec states it: the id generated for the first student starts with \<open>std_\<close>.
  The code does otherwise: saveItem takes the first three characters of the table name,
  and for \<open>students\<close> the id starts with \<open>stu_\<close>.
\<close>

theorem saveStudent_prefix_counterexample:
  "stored_after KEYS_STUDENTS
     (saveStudent 1700000000000 ''0.k3j5x9abc'' [(''name'', JStr ''Ana''), (''grade'', JStr ''3'')]
        initial_state)
     = Inr (JArr [JObj [(''name'', JStr ''Ana''), (''grade'', JStr ''3''),
                        (''id'', JStr ''stu_1700000000000_k3j5x'')]])
   \<and> take 4 ''stu_1700000000000_k3j5x'' \<noteq> ''std_''"
  by (simp add: stored_after_def saveStudent_def saveItem_def getData_def generated_id_def substr_def
      show_nat.simps digit_char_def apiRequest_eq setData_eq Let_def initial_state_def)

text \<open>
  C6, amended: saving \<open>{name: "Ana", grade: "3"}\<close> without an id to an empty students
  table leaves exactly one record in the cache, whose generated id starts with \<open>stu_\<close>;
  saving the same record with that id again raises no error, leaves that one record in
  the cache and is sent to the remote as an update.
\<close>

theorem saveStudent_then_update:
  assumes "getData st KEYS_STUDENTS = JArr []"
  shows "\<exists>st1 gid.
           saveStudent now rnd ana st = Inr st1
         \<and> gid = generated_id ''students'' now rnd
         \<and> take 4 gid = ''stu_''
         \<and> getData st1 KEYS_STUDENTS = JArr [JObj (ana @ [(''id'', JStr gid)])]
         \<and> (\<exists>st2. saveStudent now' rnd' (ana @ [(''id'', JStr gid)]) st1 = Inr st2
                \<and> getData st2 KEYS_STUDENTS = JArr [JObj (ana @ [(''id'', JStr gid)])]
                \<and> last (trace st2) =
                    Fetch (POST (getApiUrl st) Update ''students'' (JObj (ana @ [(''id'', JStr gid)]))))"
proof -
  let ?gid = "generated_id ''students'' now rnd"
  let ?row = "ana @ [(''id'', JStr ?gid)]"
  let ?st1 = "apiRequest Create ''students'' (JObj ?row) (setData KEYS_STUDENTS ([] @ [JObj ?row]) st)"
  let ?st2 = "apiRequest Update ''students'' (JObj ?row) (setData KEYS_STUDENTS ([JObj ?row][0 := JObj ?row]) ?st1)"
  note e = assms
  have n: "\<not> truthy (map_of ana ''id'')" by (simp add: ana_def)
  have r: "set_prop ana ''id'' (JStr ?gid) = ?row" by (simp add: ana_def)
  have s1: "saveStudent now rnd ana st = Inr ?st1"
    unfolding saveStudent_def using saveItem_fresh [OF e n, of now rnd "''students''"]
    by (simp only: r)
  have g1: "getData ?st1 KEYS_STUDENTS = JArr [JObj ?row]" by simp
  have i: "map_of ?row ''id'' = Some (JStr ?gid)" by (simp add: ana_def)
  have s2: "saveStudent now' rnd' ?row ?st1 = Inr ?st2"
    unfolding saveStudent_def
    using saveItem_update_single [OF g1 i generated_id_nonempty, of now' rnd' "''students''"]
    by simp
  have g2: "getData ?st2 KEYS_STUDENTS = JArr [JObj ?row]"
    by (simp only: getData_after_write list_update_code)
  have l: "last (trace ?st2) = Fetch (POST (getApiUrl st) Update ''students'' (JObj ?row))"
    by (simp add: trace_after_write)
  show ?thesis
    using s1 generated_id_students [of now rnd] g1 s2 g2 l by blast
qed

theorem saveStudent_then_update_witness:
  "getData initial_state KEYS_STUDENTS = JArr []
   \<and> (\<exists>st1 gid.
           saveStudent 5 ''0.k3j5x9'' ana initial_state = Inr st1
         \<and> gid = generated_id ''students'' 5 ''0.k3j5x9''
         \<and> take 4 gid = ''stu_''
         \<and> getData st1 KEYS_STUDENTS = JArr [JObj (ana @ [(''id'', JStr gid)])]
         \<and> (\<exists>st2. saveStudent 6 ''0.zzzzzz'' (ana @ [(''id'', JStr gid)]) st1 = Inr st2
                \<and> getData st2 KEYS_STUDENTS = JArr [JObj (ana @ [(''id'', JStr gid)])]
                \<and> last (trace st2) =
                    Fetch (POST (getApiUrl initial_state) Update ''students''
                             (JObj (ana @ [(''id'', JStr gid)])))))"
proof -
  have h: "getData initial_state KEYS_STUDENTS = JArr []"
    by (simp add: getData_def initial_state_def)
  from saveStudent_then_update [OF h, of 5 "''0.k3j5x9''" 6 "''0.zzzzzz''"] h
  show ?thesis by (intro conjI)
qed

lemma saveItems_fresh:
  assumes "getData st key = JArr list"
    and "\<forall>(now, rnd, item)\<in>set calls. \<not> truthy (map_of item ''id'')"
  shows "\<exists>st'. saveItems key table calls st = Inr st'
           \<and> getData st' key =
               JArr (list @ map (\<lambda>(now, rnd, item).
                                   JObj (set_prop item ''id'' (JStr (generated_id table now rnd)))) calls)"
  using assms
proof (induction calls arbitrary: st list)
  case Nil
  then show ?case by simp
next
  case (Cons c rest)
  obtain now rnd item where c: "c = (now, rnd, item)" by (cases c) auto
  let ?row = "JObj (set_prop item ''id'' (JStr (generated_id table now rnd)))"
  let ?st1 = "apiRequest Create table ?row (setData key (list @ [?row]) st)"
  from Cons.prems c have n: "\<not> truthy (map_of item ''id'')" by simp
  have s: "saveItem now rnd key table item st = Inr ?st1"
    using saveItem_fresh [OF Cons.prems(1) n] .
  have g: "getData ?st1 key = JArr (list @ [?row])" by simp
  from Cons.prems(2) have r: "\<forall>(now, rnd, item)\<in>set rest. \<not> truthy (map_of item ''id'')" by simp
  from Cons.IH [OF g r] obtain st' where
    st': "saveItems key table rest ?st1 = Inr st'"
      "getData st' key =
         JArr ((list @ [?row]) @ map (\<lambda>(now, rnd, item).
                   JObj (set_prop item ''id'' (JStr (generated_id table now rnd)))) rest)"
    by blast
  show ?case using s st' by (simp add: c and_then_def)
qed

lemma distinct_map_cong:
  assumes "\<And>x y. f x = f y \<longleftrightarrow> g x = g y"
  shows "distinct (map f xs) \<longleftrightarrow> distinct (map g xs)"
proof (induction xs)
  case Nil
  then show ?case by simp
next
  case (Cons x xs)
  have "f x \<in> f ` set xs \<longleftrightarrow> g x \<in> g ` set xs"
    using assms by (auto simp: image_iff)
  with Cons show ?case by simp
qed

text \<open>
  C7, as the spec states it: the ids assigned to records saved without an id are always
  distinct. The code does otherwise: two saves that read the same clock value and the
  same random digits get the same id.
\<close>

theorem saveItems_collision_counterexample:
  "stored_after KEYS_STUDENTS
     (saveItems KEYS_STUDENTS ''students''
        [(5, ''0.k3j5x9'', [(''name'', JStr ''Ana'')]), (5, ''0.k3j5x9'', [(''name'', JStr ''Budi'')])]
        initial_state)
     = Inr (JArr [JObj [(''name'', JStr ''Ana''), (''id'', JStr ''stu_5_k3j5x'')],
                  JObj [(''name'', JStr ''Budi''), (''id'', JStr ''stu_5_k3j5x'')]])"
  by (simp add: stored_after_def saveItem_def getData_def generated_id_def substr_def and_then_def
      show_nat.simps digit_char_def apiRequest_eq setData_eq Let_def initial_state_def)

text \<open>
  C7, amended: a sequence of saves of records without a truthy id to a table stored as
  an array raises no error and appends one record for each save, whose id is the table
  prefix, the timestamp and the random suffix of that save. Two of these ids are equal
  exactly when the two saves read the same timestamp and the same random suffix, so the
  assigned ids are pairwise distinct exactly when the pairs of timestamp and suffix are.
\<close>

theorem saveItems_ids:
  assumes "getData st key = JArr list"
    and "\<forall>(now, rnd, item)\<in>set calls. \<not> truthy (map_of item ''id'')"
  shows "\<exists>st' news.
           saveItems key table calls st = Inr st'
         \<and> getData st' key = JArr (list @ news)
         \<and> length news = length calls
         \<and> map get_id news =
             map (\<lambda>(now, rnd, item). Inr (Some (JStr (generated_id table now rnd)))) calls
         \<and> (distinct (map get_id news)
               \<longleftrightarrow> distinct (map (\<lambda>(now, rnd, item). (now, substr rnd 2 5)) calls))"
proof -
  let ?row = "\<lambda>(now, rnd, item). JObj (set_prop item ''id'' (JStr (generated_id table now rnd)))"
  let ?f = "\<lambda>(now, rnd, item). Inr (Some (JStr (generated_id table now rnd))) :: error + json option"
  let ?g = "\<lambda>(now, rnd, item). (now, substr rnd 2 5)"
  from saveItems_fresh [OF assms] obtain st' where
    st': "saveItems key table calls st = Inr st'" "getData st' key = JArr (list @ map ?row calls)"
    by blast
  have ids: "map get_id (map ?row calls) = map ?f calls"
    by (simp add: split_def)
  have "\<And>x y. ?f x = ?f y \<longleftrightarrow> ?g x = ?g y"
    by (auto simp: split_def generated_id_eq_iff)
  then have fg: "distinct (map ?f calls) \<longleftrightarrow> distinct (map ?g calls)"
    by (rule distinct_map_cong)
  have d: "distinct (map get_id (map ?row calls)) \<longleftrightarrow> distinct (map ?g calls)"
    unfolding ids by (rule fg)
  have l: "length (map ?row calls) = length calls" by simp
  show ?thesis
    using st' l ids d by (intro exI [of _ st'] exI [of _ "map ?row calls"] conjI)
qed

theorem saveItems_ids_witness:
  "getData initial_state KEYS_STUDENTS = JArr []
   \<and> \<not> truthy (map_of [(''name'', JStr ''Ana'')] ''id'')
   \<and> \<not> truthy (map_of [(''name'', JStr ''Budi'')] ''id'')
   \<and> distinct (map (\<lambda>(now, rnd, item). (now, substr rnd 2 5))
         [(5 :: nat, ''0.k3j5x9'', [(''name'', JStr ''Ana'')]),
          (6, ''0.k3j5x9'', [(''name'', JStr ''Budi'')])])
   \<and> (\<exists>st' news.
           saveItems KEYS_STUDENTS ''students''
             [(5, ''0.k3j5x9'', [(''name'', JStr ''Ana'')]), (6, ''0.k3j5x9'', [(''name'', JStr ''Budi'')])]
             initial_state = Inr st'
         \<and> getData st' KEYS_STUDENTS = JArr news
         \<and> length news = 2
         \<and> distinct (map get_id news))"
proof -
  let ?calls = "[(5 :: nat, ''0.k3j5x9'', [(''name'', JStr ''Ana'')]),
                 (6, ''0.k3j5x9'', [(''name'', JStr ''Budi'')])]"
  have h1: "getData initial_state KEYS_STUDENTS = JArr []"
    by (simp add: getData_def initial_state_def)
  have h2: "\<forall>(now, rnd, item)\<in>set ?calls. \<not> truthy (map_of item ''id'')" by simp
  have d: "distinct (map (\<lambda>(now, rnd, item). (now, substr rnd 2 5)) ?calls)" by simp
  from saveItems_ids [OF h1 h2, of "''students''"] obtain st' news where r:
    "saveItems KEYS_STUDENTS ''students'' ?calls initial_state = Inr st'"
    "getData st' KEYS_STUDENTS = JArr ([] @ news)"
    "length news = length ?calls"
    "distinct (map get_id news)
       \<longleftrightarrow> distinct (map (\<lambda>(now, rnd, item). (now, substr rnd 2 5)) ?calls)"
    by (elim exE conjE)
  from r(2) have g: "getData st' KEYS_STUDENTS = JArr news" by simp
  from r(3) have l: "length news = 2" by simp
  from r(4) d have dn: "distinct (map get_id news)" by (rule iffD2)
  have n1: "\<not> truthy (map_of [(''name'', JStr ''Ana'')] ''id'')" by simp
  have n2: "\<not> truthy (map_of [(''name'', JStr ''Budi'')] ''id'')" by simp
  from r(1) g l dn have "\<exists>st' news.
           saveItems KEYS_STUDENTS ''students'' ?calls initial_state = Inr st'
         \<and> getData st' KEYS_STUDENTS = JArr news
         \<and> length news = 2
         \<and> distinct (map get_id news)"
    by (intro exI conjI)
  with h1 n1 n2 d show ?thesis by (intro conjI)
qed

subsection \<open>Bulk import\<close>

lemma prepare_length [simp]: "length (prepare now rnd i ss) = length ss"
  by (induction ss arbitrary: i) simp_all

lemma prepare_nth:
  "j < length ss \<Longrightarrow>
     prepare now rnd i ss ! j =
       set_prop (ss ! j) ''id'' (JStr (bulk_id (now (i + j)) (i + j) (rnd (i + j))))"
proof (induction ss arbitrary: i j)
  case Nil
  then show ?case by simp
next
  case (Cons s rest)
  show ?case
  proof (cases j)
    case 0
    then show ?thesis by simp
  next
    case (Suc j')
    with Cons.prems have "j' < length rest" by simp
    from Cons.IH [OF this, of "Suc i"] Suc show ?thesis by simp
  qed
qed

lemma prepare_ids:
  "map (\<lambda>p. map_of p ''id'') (prepare now rnd i ss) =
     map (\<lambda>j. Some (JStr (bulk_id (now j) j (rnd j)))) [i..<i + length ss]"
proof (induction ss arbitrary: i)
  case Nil
  then show ?case by simp
next
  case (Cons s rest)
  have "[i..<i + length (s # rest)] = i # [Suc i..<Suc i + length rest]"
    using upt_conv_Cons [of i "i + length (s # rest)"] by simp
  with Cons [of "Suc i"] show ?case by simp
qed

lemma prepare_distinct: "distinct (map (\<lambda>p. map_of p ''id'') (prepare now rnd i ss))"
proof -
  have "inj_on (\<lambda>j. Some (JStr (bulk_id (now j) j (rnd j)))) (set [i..<i + length ss])"
    by (rule inj_onI) (auto dest: bulk_id_index)
  then show ?thesis
    unfolding prepare_ids by (simp add: distinct_map)
qed

lemma bulkImportStudents_loop_eq:
  "bulkImportStudents_loop ps st =
     (st\<lparr>trace := trace st @
          map (\<lambda>p. Fetch (POST (getApiUrl st) Create ''students'' (JObj p))) (take 1 ps)\<rparr>,
      drop 1 ps)"
  by (cases ps) (simp_all add: apiRequest_eq)

lemma bulkImportStudents_loop_turn:
  assumes "j < length pending"
  shows "bulkImportStudents_loop (drop j pending) s =
           (s\<lparr>trace := trace s @
                [Fetch (POST (getApiUrl s) Create ''students'' (JObj (pending ! j)))]\<rparr>,
            drop (Suc j) pending)"
proof -
  from assms have "drop j pending = pending ! j # drop (Suc j) pending"
    by (simp add: Cons_nth_drop_Suc)
  then show ?thesis by (simp add: apiRequest_eq)
qed

lemma bulkImportStudents_settled_eq:
  "trace (bulkImportStudents_settled ps st) =
     trace st @ map (\<lambda>p. Fetch (POST (getApiUrl st) Create ''students'' (JObj p))) ps
   \<and> localStorage (bulkImportStudents_settled ps st) = localStorage st
   \<and> listeners (bulkImportStudents_settled ps st) = listeners st"
proof (induction ps arbitrary: st)
  case Nil
  then show ?case by simp
next
  case (Cons p ps)
  let ?s = "apiRequest Create ''students'' (JObj p) st"
  have u: "getApiUrl ?s = getApiUrl st" by (simp add: apiRequest_eq)
  have t: "trace ?s = trace st @ [Fetch (POST (getApiUrl st) Create ''students'' (JObj p))]"
    by (simp add: apiRequest_eq)
  have l: "localStorage ?s = localStorage st" "listeners ?s = listeners st"
    by (simp_all add: apiRequest_eq)
  from Cons [of ?s] u t l show ?case by simp
qed

text \<open>
  C9: for a students table stored as an array and any list of N new records,
  bulkImportStudents raises no error. Record \<open>i\<close> gets the id \<open>std_\<close>, timestamp, \<open>_\<close>,
  index \<open>i\<close>, \<open>_\<close>, four characters of the random value read for it, and keeps its other
  fields; the N ids are pairwise distinct whatever the clock and the random source
  give. The N records are appended after the existing ones in one local write, followed
  by one invocation of each registered callback with the whole table, followed by the
  create request for the first record. The create requests are issued one at a time:
  each time the pending request has settled, in whatever state the engine is then, the
  loop issues exactly the request for the next record, and after the last one it ends.
  So N requests are issued for N records, in their order; when nothing else runs in
  between they follow the notifications directly.
\<close>

theorem bulkImportStudents_batch:
  assumes "getData st KEYS_STUDENTS = JArr list"
  shows "\<exists>st1 pending prepared combined.
           bulkImportStudents now rnd newStudents st = Inr (st1, pending)
         \<and> length prepared = length newStudents
         \<and> (\<forall>i<length newStudents.
               map_of (prepared ! i) ''id'' =
                 Some (JStr (''std_'' @ show_nat (now i) @ ''_'' @ show_nat i @ ''_'' @
                             take 4 (drop 2 (rnd i))))
             \<and> (\<forall>k. k \<noteq> ''id'' \<longrightarrow> map_of (prepared ! i) k = map_of (newStudents ! i) k))
         \<and> distinct (map (\<lambda>p. map_of p ''id'') prepared)
         \<and> combined = list @ map JObj prepared
         \<and> getData st1 KEYS_STUDENTS = JArr combined
         \<and> trace st1 =
             trace st @ [SetItem KEYS_STUDENTS (JArr combined)] @
             map (\<lambda>cb. Invoke cb (JArr combined)) (subscribers st KEYS_STUDENTS) @
             map (\<lambda>p. Fetch (POST (getApiUrl st) Create ''students'' (JObj p))) (take 1 prepared)
         \<and> pending = drop 1 prepared
         \<and> (\<forall>j s. j < length pending \<longrightarrow>
               bulkImportStudents_loop (drop j pending) s =
                 (s\<lparr>trace := trace s @
                      [Fetch (POST (getApiUrl s) Create ''students'' (JObj (pending ! j)))]\<rparr>,
                  drop (Suc j) pending))
         \<and> (\<forall>s. bulkImportStudents_loop (drop (length pending) pending) s = (s, []))
         \<and> getData (bulkImportStudents_settled pending st1) KEYS_STUDENTS = JArr combined
         \<and> trace (bulkImportStudents_settled pending st1) =
             trace st @ [SetItem KEYS_STUDENTS (JArr combined)] @
             map (\<lambda>cb. Invoke cb (JArr combined)) (subscribers st KEYS_STUDENTS) @
             map (\<lambda>p. Fetch (POST (getApiUrl st) Create ''students'' (JObj p))) prepared"
proof -
  let ?prepared = "prepare now rnd 0 newStudents"
  let ?combined = "list @ map JObj ?prepared"
  let ?post = "\<lambda>p. Fetch (POST (getApiUrl st) Create ''students'' (JObj p))"
  let ?s0 = "setData KEYS_STUDENTS ?combined st"
  let ?st1 = "?s0\<lparr>trace := trace ?s0 @ map ?post (take 1 ?prepared)\<rparr>"
  let ?pending = "drop 1 ?prepared"
  have u0: "getApiUrl ?s0 = getApiUrl st" by (simp add: setData_eq)
  have lp: "bulkImportStudents_loop ?prepared ?s0 = (?st1, ?pending)"
    by (simp only: bulkImportStudents_loop_eq u0)
  have a: "bulkImportStudents now rnd newStudents st = Inr (?st1, ?pending)"
    using assms by (simp only: bulkImportStudents_def Let_def spread.simps sum.case lp)
  have b: "length ?prepared = length newStudents" by simp
  have c: "\<forall>i<length newStudents.
               map_of (?prepared ! i) ''id'' =
                 Some (JStr (''std_'' @ show_nat (now i) @ ''_'' @ show_nat i @ ''_'' @
                             take 4 (drop 2 (rnd i))))
             \<and> (\<forall>k. k \<noteq> ''id'' \<longrightarrow> map_of (?prepared ! i) k = map_of (newStudents ! i) k)"
    by (simp add: prepare_nth bulk_id_def substr_def)
  have d: "distinct (map (\<lambda>p. map_of p ''id'') ?prepared)" by (rule prepare_distinct)
  have t0: "trace ?s0 = trace st @ [SetItem KEYS_STUDENTS (JArr ?combined)] @
             map (\<lambda>cb. Invoke cb (JArr ?combined)) (subscribers st KEYS_STUDENTS)"
    by (simp add: setData_eq)
  have l0: "localStorage ?s0 KEYS_STUDENTS = Some (JArr ?combined)" by (simp add: setData_eq)
  have t1: "trace ?st1 = trace ?s0 @ map ?post (take 1 ?prepared)" by simp
  have l1: "localStorage ?st1 = localStorage ?s0" by simp
  have u1: "getApiUrl ?st1 = getApiUrl st" by (simp add: u0)
  have g1: "getData ?st1 KEYS_STUDENTS = JArr ?combined"
    by (simp only: getData_def l1 l0 option.case)
  have e1: "trace ?st1 =
             trace st @ [SetItem KEYS_STUDENTS (JArr ?combined)] @
             map (\<lambda>cb. Invoke cb (JArr ?combined)) (subscribers st KEYS_STUDENTS) @
             map ?post (take 1 ?prepared)"
    by (simp add: t0)
  have turn: "\<forall>j s. j < length ?pending \<longrightarrow>
               bulkImportStudents_loop (drop j ?pending) s =
                 (s\<lparr>trace := trace s @
                      [Fetch (POST (getApiUrl s) Create ''students'' (JObj (?pending ! j)))]\<rparr>,
                  drop (Suc j) ?pending)"
    using bulkImportStudents_loop_turn by blast
  have fin: "\<forall>s. bulkImportStudents_loop (drop (length ?pending) ?pending) s = (s, [])"
    by simp
  from bulkImportStudents_settled_eq [of ?pending ?st1]
  have ts: "trace (bulkImportStudents_settled ?pending ?st1) =
              trace ?st1 @ map ?post ?pending"
    and ls: "localStorage (bulkImportStudents_settled ?pending ?st1) = localStorage ?st1"
    by (simp_all only: u1)
  have gs: "getData (bulkImportStudents_settled ?pending ?st1) KEYS_STUDENTS = JArr ?combined"
    by (simp only: getData_def ls l1 l0 option.case)
  have "map ?post (take 1 ?prepared) @ map ?post ?pending = map ?post ?prepared"
    by (simp only: map_append [symmetric] append_take_drop_id)
  then have es: "trace (bulkImportStudents_settled ?pending ?st1) =
             trace st @ [SetItem KEYS_STUDENTS (JArr ?combined)] @
             map (\<lambda>cb. Invoke cb (JArr ?combined)) (subscribers st KEYS_STUDENTS) @
             map ?post ?prepared"
    by (simp only: ts e1 append_assoc)
  show ?thesis
    using a b c d g1 e1 turn fin gs es
    by (intro exI [of _ ?st1] exI [of _ ?pending] exI [of _ ?prepared] exI [of _ ?combined]
        conjI refl)
qed

theorem bulkImportStudents_batch_witness:
  "getData two_students KEYS_STUDENTS = JArr [JObj row_s1, JObj row_s2]
   \<and> subscribers two_students KEYS_STUDENTS = [1, 2]
   \<and> (\<exists>st1 pending prepared combined.
           bulkImportStudents (\<lambda>i. 5) (\<lambda>i. ''0.k3j5x9'')
             [[(''name'', JStr ''A'')], [(''name'', JStr ''B'')]] two_students = Inr (st1, pending)
         \<and> length prepared = 2
         \<and> map_of (prepared ! 0) ''id'' = Some (JStr ''std_5_0_k3j5'')
         \<and> map_of (prepared ! 1) ''id'' = Some (JStr ''std_5_1_k3j5'')
         \<and> map_of (prepared ! 0) ''name'' = Some (JStr ''A'')
         \<and> map_of (prepared ! 1) ''name'' = Some (JStr ''B'')
         \<and> distinct (map (\<lambda>p. map_of p ''id'') prepared)
         \<and> combined = [JObj row_s1, JObj row_s2] @ map JObj prepared
         \<and> getData st1 KEYS_STUDENTS = JArr combined
         \<and> trace st1 =
             [SetItem KEYS_STUDENTS (JArr combined), Invoke 1 (JArr combined), Invoke 2 (JArr combined)] @
             map (\<lambda>p. Fetch (POST DEFAULT_API_URL Create ''students'' (JObj p))) (take 1 prepared)
         \<and> pending = drop 1 prepared
         \<and> bulkImportStudents_loop pending two_students =
             (two_students\<lparr>trace :=
                [Fetch (POST DEFAULT_API_URL Create ''students'' (JObj (pending ! 0)))]\<rparr>,
              drop 1 pending)
         \<and> trace (bulkImportStudents_settled pending st1) =
             [SetItem KEYS_STUDENTS (JArr combined), Invoke 1 (JArr combined), Invoke 2 (JArr combined)] @
             map (\<lambda>p. Fetch (POST DEFAULT_API_URL Create ''students'' (JObj p))) prepared)
   \<and> bulkImportStudents (\<lambda>i. 5) (\<lambda>i. ''0.k3j5x9'')
        [[(''name'', JStr ''A'')], [(''name'', JStr ''B'')]] initial_state =
      Inr (initial_state
             \<lparr>localStorage := [KEYS_STUDENTS \<mapsto>
                 JArr [JObj [(''name'', JStr ''A''), (''id'', JStr ''std_5_0_k3j5'')],
                       JObj [(''name'', JStr ''B''), (''id'', JStr ''std_5_1_k3j5'')]]],
               trace :=
                 [SetItem KEYS_STUDENTS
                    (JArr [JObj [(''name'', JStr ''A''), (''id'', JStr ''std_5_0_k3j5'')],
                           JObj [(''name'', JStr ''B''), (''id'', JStr ''std_5_1_k3j5'')]]),
                  Fetch (POST DEFAULT_API_URL Create ''students''
                           (JObj [(''name'', JStr ''A''), (''id'', JStr ''std_5_0_k3j5'')]))]\<rparr>,
           [[(''name'', JStr ''B''), (''id'', JStr ''std_5_1_k3j5'')]])"
proof -
  let ?new = "[[(''name'', JStr ''A'')], [(''name'', JStr ''B'')]]"
  have h: "getData two_students KEYS_STUDENTS = JArr [JObj row_s1, JObj row_s2]"
    by (simp add: getData_def two_students_facts)
  have s: "subscribers two_students KEYS_STUDENTS = [1, 2]"
    by (simp add: subscribers_def two_students_facts)
  have d5: "show_nat 5 = ''5''" "show_nat 0 = ''0''" "show_nat 1 = ''1''" "show_nat (Suc 0) = ''1''"
    by (simp_all add: show_nat_small digit_char_def)
  from bulkImportStudents_batch [OF h, of "\<lambda>i. 5" "\<lambda>i. ''0.k3j5x9''" ?new]
  obtain st1 pending prepared combined where r:
    "bulkImportStudents (\<lambda>i. 5) (\<lambda>i. ''0.k3j5x9'') ?new two_students = Inr (st1, pending)"
    "length prepared = length ?new"
    "\<forall>i<length ?new.
       map_of (prepared ! i) ''id'' =
         Some (JStr (''std_'' @ show_nat 5 @ ''_'' @ show_nat i @ ''_'' @ take 4 (drop 2 ''0.k3j5x9'')))
       \<and> (\<forall>k. k \<noteq> ''id'' \<longrightarrow> map_of (prepared ! i) k = map_of (?new ! i) k)"
    "distinct (map (\<lambda>p. map_of p ''id'') prepared)"
    "combined = [JObj row_s1, JObj row_s2] @ map JObj prepared"
    "getData st1 KEYS_STUDENTS = JArr combined"
    "trace st1 =
       trace two_students @ [SetItem KEYS_STUDENTS (JArr combined)] @
       map (\<lambda>cb. Invoke cb (JArr combined)) (subscribers two_students KEYS_STUDENTS) @
       map (\<lambda>p. Fetch (POST (getApiUrl two_students) Create ''students'' (JObj p))) (take 1 prepared)"
    "pending = drop 1 prepared"
    "\<forall>j s. j < length pending \<longrightarrow>
       bulkImportStudents_loop (drop j pending) s =
         (s\<lparr>trace := trace s @
              [Fetch (POST (getApiUrl s) Create ''students'' (JObj (pending ! j)))]\<rparr>,
          drop (Suc j) pending)"
    "trace (bulkImportStudents_settled pending st1) =
       trace two_students @ [SetItem KEYS_STUDENTS (JArr combined)] @
       map (\<lambda>cb. Invoke cb (JArr combined)) (subscribers two_students KEYS_STUDENTS) @
       map (\<lambda>p. Fetch (POST (getApiUrl two_students) Create ''students'' (JObj p))) prepared"
    by (elim exE conjE)
  from r(2) have l: "length prepared = 2" by simp
  from r(3) have i0: "map_of (prepared ! 0) ''id'' = Some (JStr ''std_5_0_k3j5'')"
    and n0: "map_of (prepared ! 0) ''name'' = Some (JStr ''A'')"
    by (simp_all add: d5)
  from r(3) have "map_of (prepared ! 1) ''id'' =
         Some (JStr (''std_'' @ show_nat 5 @ ''_'' @ show_nat 1 @ ''_'' @ take 4 (drop 2 ''0.k3j5x9'')))
       \<and> (\<forall>k. k \<noteq> ''id'' \<longrightarrow> map_of (prepared ! 1) k = map_of (?new ! 1) k)"
    by simp
  then have i1: "map_of (prepared ! 1) ''id'' = Some (JStr ''std_5_1_k3j5'')"
    and n1: "map_of (prepared ! 1) ''name'' = Some (JStr ''B'')"
    by (simp_all add: d5)
  from r(7) have t: "trace st1 =
             [SetItem KEYS_STUDENTS (JArr combined), Invoke 1 (JArr combined), Invoke 2 (JArr combined)] @
             map (\<lambda>p. Fetch (POST DEFAULT_API_URL Create ''students'' (JObj p))) (take 1 prepared)"
    by (simp add: s two_students_facts)
  from r(10) have ts: "trace (bulkImportStudents_settled pending st1) =
             [SetItem KEYS_STUDENTS (JArr combined), Invoke 1 (JArr combined), Invoke 2 (JArr combined)] @
             map (\<lambda>p. Fetch (POST DEFAULT_API_URL Create ''students'' (JObj p))) prepared"
    by (simp add: s two_students_facts)
  from l r(8) have lp: "0 < length pending" by simp
  from r(9) [rule_format, OF lp, of two_students]
  have turn: "bulkImportStudents_loop pending two_students =
             (two_students\<lparr>trace :=
                [Fetch (POST DEFAULT_API_URL Create ''students'' (JObj (pending ! 0)))]\<rparr>,
              drop 1 pending)"
    by (simp add: two_students_facts)
  from r(1) l i0 i1 n0 n1 r(4,5,6) t r(8) turn ts
  have ex: "\<exists>st1 pending prepared combined.
           bulkImportStudents (\<lambda>i. 5) (\<lambda>i. ''0.k3j5x9'') ?new two_students = Inr (st1, pending)
         \<and> length prepared = 2
         \<and> map_of (prepared ! 0) ''id'' = Some (JStr ''std_5_0_k3j5'')
         \<and> map_of (prepared ! 1) ''id'' = Some (JStr ''std_5_1_k3j5'')
         \<and> map_of (prepared ! 0) ''name'' = Some (JStr ''A'')
         \<and> map_of (prepared ! 1) ''name'' = Some (JStr ''B'')
         \<and> distinct (map (\<lambda>p. map_of p ''id'') prepared)
         \<and> combined = [JObj row_s1, JObj row_s2] @ map JObj prepared
         \<and> getData st1 KEYS_STUDENTS = JArr combined
         \<and> trace st1 =
             [SetItem KEYS_STUDENTS (JArr combined), Invoke 1 (JArr combined), Invoke 2 (JArr combined)] @
             map (\<lambda>p. Fetch (POST DEFAULT_API_URL Create ''students'' (JObj p))) (take 1 prepared)
         \<and> pending = drop 1 prepared
         \<and> bulkImportStudents_loop pending two_students =
             (two_students\<lparr>trace :=
                [Fetch (POST DEFAULT_API_URL Create ''students'' (JObj (pending ! 0)))]\<rparr>,
              drop 1 pending)
         \<and> trace (bulkImportStudents_settled pending st1) =
             [SetItem KEYS_STUDENTS (JArr combined), Invoke 1 (JArr combined), Invoke 2 (JArr combined)] @
             map (\<lambda>p. Fetch (POST DEFAULT_API_URL Create ''students'' (JObj p))) prepared"
    by (intro exI conjI)
  have ev: "bulkImportStudents (\<lambda>i. 5) (\<lambda>i. ''0.k3j5x9'') ?new initial_state =
      Inr (initial_state
             \<lparr>localStorage := [KEYS_STUDENTS \<mapsto>
                 JArr [JObj [(''name'', JStr ''A''), (''id'', JStr ''std_5_0_k3j5'')],
                       JObj [(''name'', JStr ''B''), (''id'', JStr ''std_5_1_k3j5'')]]],
               trace :=
                 [SetItem KEYS_STUDENTS
                    (JArr [JObj [(''name'', JStr ''A''), (''id'', JStr ''std_5_0_k3j5'')],
                           JObj [(''name'', JStr ''B''), (''id'', JStr ''std_5_1_k3j5'')]]),
                  Fetch (POST DEFAULT_API_URL Create ''students''
                           (JObj [(''name'', JStr ''A''), (''id'', JStr ''std_5_0_k3j5'')]))]\<rparr>,
           [[(''name'', JStr ''B''), (''id'', JStr ''std_5_1_k3j5'')]])"
    by (simp add: bulkImportStudents_def Let_def getData_def initial_state_def bulk_id_def
        substr_def d5 setData_eq apiRequest_eq subscribers_def getApiUrl_def
        KEYS_STUDENTS_def KEYS_USERS_def KEYS_MATERIALS_def KEYS_SUBMISSIONS_def KEYS_SETTINGS_def)
  from h s ex ev show ?thesis by (intro conjI)
qed

end
